theory Spec2Isabelle
  imports Main
begin

section \<open>Objects and the object store\<close>

text \<open>
  The Python program passes \<open>Person\<close> and \<open>Vehicle\<close> objects by reference and mutates
  them in place: a \<open>Vehicle\<close> holds a reference to its owner, the \<open>Register\<close> holds
  references to vehicles and to owners, and the counter of a \<open>Person\<close> is changed
  through whichever reference is at hand. The model therefore keeps an explicit store: a
  reference is an index into the list of allocated objects of its class.
\<close>

type_synonym person_ref = nat
type_synonym vehicle_ref = nat

record Person =
  name :: string
  surname :: string
  age :: int
  vehicle_count :: int

record Vehicle =
  registration_plate :: string
  creation_date :: string
  owner :: person_ref

record Register =
  vehicles :: "vehicle_ref list"
  owners :: "person_ref list"

record world =
  people :: "Person list"
  cars :: "Vehicle list"
  register :: Register

datatype error = ValueError

datatype 'a outcome = Returns 'a | Raises error

subsection \<open>Person\<close>

definition Person_init :: "string \<Rightarrow> string \<Rightarrow> int \<Rightarrow> Person" where
  "Person_init n s a = \<lparr>name = n, surname = s, age = a, vehicle_count = 0\<rparr>"

definition Person_eq :: "Person \<Rightarrow> Person \<Rightarrow> bool" where
  "Person_eq p q \<longleftrightarrow> name p = name q \<and> surname p = surname q \<and> age p = age q"

definition increment_vehicle_count :: "Person \<Rightarrow> Person" where
  "increment_vehicle_count p = p\<lparr>vehicle_count := vehicle_count p + 1\<rparr>"

definition decrement_vehicle_count :: "Person \<Rightarrow> Person" where
  "decrement_vehicle_count p =
     (if vehicle_count p > 0 then p\<lparr>vehicle_count := vehicle_count p - 1\<rparr> else p)"

datatype count_call = Increment | Decrement

fun count_step :: "Person \<Rightarrow> count_call \<Rightarrow> Person" where
  "count_step p Increment = increment_vehicle_count p"
| "count_step p Decrement = decrement_vehicle_count p"

subsection \<open>Vehicle\<close>

definition Vehicle_init :: "string \<Rightarrow> string \<Rightarrow> person_ref \<Rightarrow> Vehicle" where
  "Vehicle_init plate date p = \<lparr>registration_plate = plate, creation_date = date, owner = p\<rparr>"

definition Vehicle_eq :: "Vehicle \<Rightarrow> Vehicle \<Rightarrow> bool" where
  "Vehicle_eq v u \<longleftrightarrow> registration_plate v = registration_plate u"

subsection \<open>Python list operations used by the register\<close>

text \<open>\<open>x in xs\<close>: some element compares equal to \<open>x\<close>.\<close>

definition list_contains :: "('a \<Rightarrow> bool) \<Rightarrow> 'a list \<Rightarrow> bool" where
  "list_contains eq_x xs = list_ex eq_x xs"

text \<open>\<open>xs.remove(x)\<close>: drops the first element that compares equal to \<open>x\<close>; raises
  \<open>ValueError\<close> (here \<open>None\<close>) when there is none.\<close>

fun list_remove :: "('a \<Rightarrow> bool) \<Rightarrow> 'a list \<Rightarrow> 'a list option" where
  "list_remove eq_x [] = None"
| "list_remove eq_x (y # ys) =
     (if eq_x y then Some ys else map_option (Cons y) (list_remove eq_x ys))"

subsection \<open>Register\<close>

definition Register_init :: Register where
  "Register_init = \<lparr>vehicles = [], owners = []\<rparr>"

definition person_at :: "world \<Rightarrow> person_ref \<Rightarrow> Person" where
  "person_at w p = people w ! p"

definition vehicle_at :: "world \<Rightarrow> vehicle_ref \<Rightarrow> Vehicle" where
  "vehicle_at w v = cars w ! v"

definition same_person :: "world \<Rightarrow> person_ref \<Rightarrow> person_ref \<Rightarrow> bool" where
  "same_person w p = (\<lambda>q. Person_eq (person_at w q) (person_at w p))"

definition same_vehicle :: "world \<Rightarrow> vehicle_ref \<Rightarrow> vehicle_ref \<Rightarrow> bool" where
  "same_vehicle w v = (\<lambda>u. Vehicle_eq (vehicle_at w u) (vehicle_at w v))"

definition set_vehicles :: "vehicle_ref list \<Rightarrow> world \<Rightarrow> world" where
  "set_vehicles vs w = w\<lparr>register := (register w)\<lparr>vehicles := vs\<rparr>\<rparr>"

definition set_owners :: "person_ref list \<Rightarrow> world \<Rightarrow> world" where
  "set_owners ps w = w\<lparr>register := (register w)\<lparr>owners := ps\<rparr>\<rparr>"

definition set_count :: "person_ref \<Rightarrow> (Person \<Rightarrow> Person) \<Rightarrow> world \<Rightarrow> world" where
  "set_count p f w = w\<lparr>people := (people w)[p := f (person_at w p)]\<rparr>"

definition set_owner :: "vehicle_ref \<Rightarrow> person_ref \<Rightarrow> world \<Rightarrow> world" where
  "set_owner v p w = w\<lparr>cars := (cars w)[v := (vehicle_at w v)\<lparr>owner := p\<rparr>]\<rparr>"

definition find_vehicle_by_plate :: "world \<Rightarrow> string \<Rightarrow> vehicle_ref option" where
  "find_vehicle_by_plate w plate =
     find (\<lambda>v. registration_plate (vehicle_at w v) = plate) (vehicles (register w))"

definition insert_vehicle :: "vehicle_ref \<Rightarrow> world \<Rightarrow> int outcome \<times> world" where
  "insert_vehicle v w =
     (if list_contains (same_vehicle w v) (vehicles (register w)) then (Returns 0, w)
      else
        let w1 = set_vehicles (vehicles (register w) @ [v]) w;
            p = owner (vehicle_at w1 v);
            w2 = (if \<not> list_contains (same_person w1 p) (owners (register w1))
                  then set_owners (owners (register w1) @ [p]) w1 else w1);
            w3 = set_count p increment_vehicle_count w2
        in (Returns 1, w3))"

text \<open>The tail of \<open>update_vehicle_owner\<close>, from \<open>vehicle.owner = new_owner\<close> on.\<close>

definition reassign :: "vehicle_ref \<Rightarrow> person_ref \<Rightarrow> world \<Rightarrow> int outcome \<times> world" where
  "reassign v new_owner w =
     (let w1 = set_owner v new_owner w;
          w2 = (if \<not> list_contains (same_person w1 new_owner) (owners (register w1))
                then set_owners (owners (register w1) @ [new_owner]) w1 else w1);
          w3 = set_count new_owner increment_vehicle_count w2
      in (Returns 1, w3))"

definition update_vehicle_owner :: "string \<Rightarrow> person_ref \<Rightarrow> world \<Rightarrow> int outcome \<times> world" where
  "update_vehicle_owner plate new_owner w =
     (case find_vehicle_by_plate w plate of
        None \<Rightarrow> (Returns 0, w)
      | Some v \<Rightarrow>
          if same_person w new_owner (owner (vehicle_at w v)) then (Returns 0, w)
          else
            let old_owner = owner (vehicle_at w v);
                w1 = set_count old_owner decrement_vehicle_count w
            in if vehicle_count (person_at w1 old_owner) = 0
               then (case list_remove (same_person w1 old_owner) (owners (register w1)) of
                       None \<Rightarrow> (Raises ValueError, w1)
                     | Some ps \<Rightarrow> reassign v new_owner (set_owners ps w1))
               else reassign v new_owner w1)"

definition delete_vehicle :: "string \<Rightarrow> world \<Rightarrow> int outcome \<times> world" where
  "delete_vehicle plate w =
     (case find_vehicle_by_plate w plate of
        None \<Rightarrow> (Returns 0, w)
      | Some v \<Rightarrow>
          let p = owner (vehicle_at w v)
          in (case list_remove (same_vehicle w v) (vehicles (register w)) of
                None \<Rightarrow> (Raises ValueError, w)
              | Some vs \<Rightarrow>
                  let w1 = set_vehicles vs w;
                      w2 = set_count p decrement_vehicle_count w1
                  in if vehicle_count (person_at w2 p) = 0
                     then (case list_remove (same_person w2 p) (owners (register w2)) of
                             None \<Rightarrow> (Raises ValueError, w2)
                           | Some ps \<Rightarrow> (Returns 1, set_owners ps w2))
                     else (Returns 1, w2)))"

definition list_vehicles :: "world \<Rightarrow> vehicle_ref list" where
  "list_vehicles w = vehicles (register w)"

definition list_owners :: "world \<Rightarrow> person_ref list" where
  "list_owners w = owners (register w)"

definition list_vehicle_by_owner :: "person_ref \<Rightarrow> world \<Rightarrow> vehicle_ref list" where
  "list_vehicle_by_owner p w =
     filter (\<lambda>v. same_person w p (owner (vehicle_at w v))) (vehicles (register w))"

section \<open>Callers\<close>

text \<open>
  A caller constructs persons and vehicles and calls the three mutating operations of the
  register. A call is possible when the references it passes are allocated objects. A
  call that raises leaves the mutations done so far in place, as Python does.
\<close>

datatype call =
    NewPerson string string int
  | NewVehicle string string person_ref
  | InsertVehicle vehicle_ref
  | UpdateVehicleOwner string person_ref
  | DeleteVehicle string

fun possible :: "call \<Rightarrow> world \<Rightarrow> bool" where
  "possible (NewPerson n s a) w = True"
| "possible (NewVehicle plate date p) w = (p < length (people w))"
| "possible (InsertVehicle v) w = (v < length (cars w))"
| "possible (UpdateVehicleOwner plate p) w = (p < length (people w))"
| "possible (DeleteVehicle plate) w = True"

fun perform :: "call \<Rightarrow> world \<Rightarrow> int outcome option \<times> world" where
  "perform (NewPerson n s a) w = (None, w\<lparr>people := people w @ [Person_init n s a]\<rparr>)"
| "perform (NewVehicle plate date p) w = (None, w\<lparr>cars := cars w @ [Vehicle_init plate date p]\<rparr>)"
| "perform (InsertVehicle v) w = (let (r, w') = insert_vehicle v w in (Some r, w'))"
| "perform (UpdateVehicleOwner plate p) w =
     (let (r, w') = update_vehicle_owner plate p w in (Some r, w'))"
| "perform (DeleteVehicle plate) w = (let (r, w') = delete_vehicle plate w in (Some r, w'))"

definition empty_world :: world where
  "empty_world = \<lparr>people = [], cars = [], register = Register_init\<rparr>"

text \<open>\<open>run cs w\<close> performs the calls in order and gives the results of the register
  calls together with the final world; \<open>None\<close> when some call passes a dangling
  reference, which no Python caller can do.\<close>

fun run :: "call list \<Rightarrow> world \<Rightarrow> (int outcome list \<times> world) option" where
  "run [] w = Some ([], w)"
| "run (c # cs) w =
     (if possible c w
      then (case perform c w of
              (r, w') \<Rightarrow> map_option (\<lambda>(rs, w''). ((case r of None \<Rightarrow> [] | Some x \<Rightarrow> [x]) @ rs, w''))
                           (run cs w'))
      else None)"

section \<open>The register's invariants, in the specification's words\<close>

definition plates :: "world \<Rightarrow> string list" where
  "plates w = map (\<lambda>v. registration_plate (vehicle_at w v)) (vehicles (register w))"

text \<open>Invariant 1: no two vehicles of the register share a registration plate.\<close>

definition unique_plates :: "world \<Rightarrow> bool" where
  "unique_plates w = distinct (plates w)"

fun pairwise_unequal :: "Person list \<Rightarrow> bool" where
  "pairwise_unequal [] = True"
| "pairwise_unequal (p # ps) = (\<not> list_ex (Person_eq p) ps \<and> pairwise_unequal ps)"

text \<open>Invariant 2: \<open>owners\<close> holds exactly the persons, up to \<open>Person\<close> equality, that
  own a vehicle of the register: no duplicates, no extras, no omissions.\<close>

definition no_duplicate_owners :: "world \<Rightarrow> bool" where
  "no_duplicate_owners w = pairwise_unequal (map (person_at w) (owners (register w)))"

definition no_extra_owners :: "world \<Rightarrow> bool" where
  "no_extra_owners w =
     list_all (\<lambda>q. list_ex (\<lambda>v. same_person w q (owner (vehicle_at w v))) (vehicles (register w)))
       (owners (register w))"

definition no_omitted_owners :: "world \<Rightarrow> bool" where
  "no_omitted_owners w =
     list_all (\<lambda>v. list_ex (same_person w (owner (vehicle_at w v))) (owners (register w)))
       (vehicles (register w))"

definition owners_exact :: "world \<Rightarrow> bool" where
  "owners_exact w \<longleftrightarrow> no_duplicate_owners w \<and> no_extra_owners w \<and> no_omitted_owners w"

text \<open>Invariant 3: the counter of every person in \<open>owners\<close> is the number of vehicles of
  the register whose owner equals that person.\<close>

definition counts_agree :: "world \<Rightarrow> bool" where
  "counts_agree w =
     list_all (\<lambda>q. vehicle_count (person_at w q) = int (length (list_vehicle_by_owner q w)))
       (owners (register w))"

text \<open>Every reference held by the register points to an allocated vehicle.\<close>

definition vehicles_allocated :: "world \<Rightarrow> bool" where
  "vehicles_allocated w = list_all (\<lambda>v. v < length (cars w)) (vehicles (register w))"

definition plates_ok :: "world \<Rightarrow> bool" where
  "plates_ok w \<longleftrightarrow> vehicles_allocated w \<and> unique_plates w"

section \<open>Concrete callers\<close>

text \<open>The objects and calls of the module's own test code: \<open>person1\<close>, \<open>person2\<close> are
  persons 0 and 1, \<open>car1\<close> to \<open>car4\<close> are vehicles 0 to 3.\<close>

definition module_objects :: "call list" where
  "module_objects =
     [NewPerson ''John'' ''Doe'' 20, NewPerson ''Alice'' ''Doe'' 22,
      NewVehicle ''abc0'' ''20221122'' 0, NewVehicle ''abc1'' ''20221123'' 0,
      NewVehicle ''abc0'' ''20221122'' 0, NewVehicle ''xyz'' ''20221124'' 1]"

definition module_inserts :: "call list" where
  "module_inserts = [InsertVehicle 0, InsertVehicle 1, InsertVehicle 2, InsertVehicle 3]"

definition module_updates :: "call list" where
  "module_updates =
     [UpdateVehicleOwner ''abc1'' 0, UpdateVehicleOwner ''not in register'' 0,
      UpdateVehicleOwner ''abc1'' 1, UpdateVehicleOwner ''abc0'' 1]"

definition module_deletes :: "call list" where
  "module_deletes =
     [DeleteVehicle ''not in register'', DeleteVehicle ''abc0'', DeleteVehicle ''abc1'',
      DeleteVehicle ''xyz'']"

definition after_module_inserts :: world where
  "after_module_inserts =
     \<lparr>people =
        [\<lparr>name = ''John'', surname = ''Doe'', age = 20, vehicle_count = 2\<rparr>,
         \<lparr>name = ''Alice'', surname = ''Doe'', age = 22, vehicle_count = 1\<rparr>],
      cars =
        [\<lparr>registration_plate = ''abc0'', creation_date = ''20221122'', owner = 0\<rparr>,
         \<lparr>registration_plate = ''abc1'', creation_date = ''20221123'', owner = 0\<rparr>,
         \<lparr>registration_plate = ''abc0'', creation_date = ''20221122'', owner = 0\<rparr>,
         \<lparr>registration_plate = ''xyz'', creation_date = ''20221124'', owner = 1\<rparr>],
      register = \<lparr>vehicles = [0, 1, 3], owners = [0, 1]\<rparr>\<rparr>"

text \<open>A caller that builds two \<open>Person\<close> objects with the same name, surname and age
  (persons 0 and 1), a third person (2), and registers one vehicle for each of the two
  equal objects.\<close>

definition john_twice :: "call list" where
  "john_twice =
     [NewPerson ''John'' ''Doe'' 20, NewPerson ''John'' ''Doe'' 20, NewPerson ''Alice'' ''Doe'' 22,
      NewVehicle ''abc0'' ''20221122'' 0, NewVehicle ''abc1'' ''20221123'' 1,
      InsertVehicle 0, InsertVehicle 1]"

definition one_car :: world where
  "one_car =
     \<lparr>people = [Person_init ''John'' ''Doe'' 20],
      cars = [Vehicle_init ''abc0'' ''20221122'' 0],
      register = Register_init\<rparr>"

text \<open>The worlds this caller reaches: after \<open>john_twice\<close>; after then deleting
  \<open>abc1\<close>; after deleting \<open>abc0\<close> instead; after transferring \<open>abc1\<close> to person 2
  instead.\<close>

definition twins_registered :: world where
  "twins_registered =
     \<lparr>people =
        [\<lparr>name = ''John'', surname = ''Doe'', age = 20, vehicle_count = 1\<rparr>,
         \<lparr>name = ''John'', surname = ''Doe'', age = 20, vehicle_count = 1\<rparr>,
         \<lparr>name = ''Alice'', surname = ''Doe'', age = 22, vehicle_count = 0\<rparr>],
      cars =
        [\<lparr>registration_plate = ''abc0'', creation_date = ''20221122'', owner = 0\<rparr>,
         \<lparr>registration_plate = ''abc1'', creation_date = ''20221123'', owner = 1\<rparr>],
      register = \<lparr>vehicles = [0, 1], owners = [0]\<rparr>\<rparr>"

definition twins_abc1_deleted :: world where
  "twins_abc1_deleted =
     \<lparr>people =
        [\<lparr>name = ''John'', surname = ''Doe'', age = 20, vehicle_count = 1\<rparr>,
         \<lparr>name = ''John'', surname = ''Doe'', age = 20, vehicle_count = 0\<rparr>,
         \<lparr>name = ''Alice'', surname = ''Doe'', age = 22, vehicle_count = 0\<rparr>],
      cars =
        [\<lparr>registration_plate = ''abc0'', creation_date = ''20221122'', owner = 0\<rparr>,
         \<lparr>registration_plate = ''abc1'', creation_date = ''20221123'', owner = 1\<rparr>],
      register = \<lparr>vehicles = [0], owners = []\<rparr>\<rparr>"

definition twins_abc0_deleted :: world where
  "twins_abc0_deleted =
     \<lparr>people =
        [\<lparr>name = ''John'', surname = ''Doe'', age = 20, vehicle_count = 0\<rparr>,
         \<lparr>name = ''John'', surname = ''Doe'', age = 20, vehicle_count = 1\<rparr>,
         \<lparr>name = ''Alice'', surname = ''Doe'', age = 22, vehicle_count = 0\<rparr>],
      cars =
        [\<lparr>registration_plate = ''abc0'', creation_date = ''20221122'', owner = 0\<rparr>,
         \<lparr>registration_plate = ''abc1'', creation_date = ''20221123'', owner = 1\<rparr>],
      register = \<lparr>vehicles = [1], owners = []\<rparr>\<rparr>"

definition twins_abc1_transferred :: world where
  "twins_abc1_transferred =
     \<lparr>people =
        [\<lparr>name = ''John'', surname = ''Doe'', age = 20, vehicle_count = 1\<rparr>,
         \<lparr>name = ''John'', surname = ''Doe'', age = 20, vehicle_count = 0\<rparr>,
         \<lparr>name = ''Alice'', surname = ''Doe'', age = 22, vehicle_count = 1\<rparr>],
      cars =
        [\<lparr>registration_plate = ''abc0'', creation_date = ''20221122'', owner = 0\<rparr>,
         \<lparr>registration_plate = ''abc1'', creation_date = ''20221123'', owner = 2\<rparr>],
      register = \<lparr>vehicles = [0, 1], owners = [2]\<rparr>\<rparr>"

section \<open>Callers that build every person once\<close>

text \<open>The fields \<open>Person.__eq__\<close> compares.\<close>

definition identity_key :: "Person \<Rightarrow> string \<times> string \<times> int" where
  "identity_key p = (name p, surname p, age p)"

definition keys :: "world \<Rightarrow> (string \<times> string \<times> int) list" where
  "keys w = map identity_key (people w)"

text \<open>No two allocated \<open>Person\<close> objects are equal: equality of persons is identity of
  objects.\<close>

definition persons_unique :: "world \<Rightarrow> bool" where
  "persons_unique w = distinct (keys w)"

definition owner_of :: "world \<Rightarrow> vehicle_ref \<Rightarrow> person_ref" where
  "owner_of w v = owner (vehicle_at w v)"

text \<open>The registered vehicles whose owner is the object \<open>p\<close>.\<close>

definition owned_by :: "world \<Rightarrow> person_ref \<Rightarrow> vehicle_ref list" where
  "owned_by w p = filter (\<lambda>v. owner_of w v = p) (vehicles (register w))"

text \<open>The register and the store fit together: references are allocated, plates are
  unique, \<open>owners\<close> lists each owning object once, and every object's counter is the
  number of registered vehicles it owns.\<close>

definition consistent :: "world \<Rightarrow> bool" where
  "consistent w \<longleftrightarrow>
     vehicles_allocated w \<and>
     list_all (\<lambda>c. owner c < length (people w)) (cars w) \<and>
     unique_plates w \<and>
     distinct (owners (register w)) \<and>
     set (owners (register w)) = set (map (owner_of w) (vehicles (register w))) \<and>
     list_all (\<lambda>p. vehicle_count (person_at w p) = int (length (owned_by w p)))
       [0..<length (people w)]"

text \<open>The worlds of the module's test code after its updates and at its end.\<close>

definition after_module_updates :: world where
  "after_module_updates =
     \<lparr>people =
        [\<lparr>name = ''John'', surname = ''Doe'', age = 20, vehicle_count = 0\<rparr>,
         \<lparr>name = ''Alice'', surname = ''Doe'', age = 22, vehicle_count = 3\<rparr>],
      cars =
        [\<lparr>registration_plate = ''abc0'', creation_date = ''20221122'', owner = 1\<rparr>,
         \<lparr>registration_plate = ''abc1'', creation_date = ''20221123'', owner = 1\<rparr>,
         \<lparr>registration_plate = ''abc0'', creation_date = ''20221122'', owner = 0\<rparr>,
         \<lparr>registration_plate = ''xyz'', creation_date = ''20221124'', owner = 1\<rparr>],
      register = \<lparr>vehicles = [0, 1, 3], owners = [1]\<rparr>\<rparr>"

definition after_module_test :: world where
  "after_module_test =
     \<lparr>people =
        [\<lparr>name = ''John'', surname = ''Doe'', age = 20, vehicle_count = 0\<rparr>,
         \<lparr>name = ''Alice'', surname = ''Doe'', age = 22, vehicle_count = 0\<rparr>],
      cars =
        [\<lparr>registration_plate = ''abc0'', creation_date = ''20221122'', owner = 1\<rparr>,
         \<lparr>registration_plate = ''abc1'', creation_date = ''20221123'', owner = 1\<rparr>,
         \<lparr>registration_plate = ''abc0'', creation_date = ''20221122'', owner = 0\<rparr>,
         \<lparr>registration_plate = ''xyz'', creation_date = ''20221124'', owner = 1\<rparr>],
      register = \<lparr>vehicles = [], owners = []\<rparr>\<rparr>"

section \<open>Basic facts about the model\<close>

lemma list_contains_iff: "list_contains P xs \<longleftrightarrow> (\<exists>x\<in>set xs. P x)"
  by (simp add: list_contains_def list_ex_iff)

lemma contains_same_vehicle:
  "list_contains (same_vehicle w v) (vehicles (register w)) \<longleftrightarrow>
   registration_plate (vehicle_at w v) \<in> set (plates w)"
  unfolding list_contains_iff same_vehicle_def Vehicle_eq_def plates_def set_map image_iff
  by (metis (no_types))

lemma find_vehicle_None:
  "find_vehicle_by_plate w plate = None \<longleftrightarrow> plate \<notin> set (plates w)"
  by (auto simp: find_vehicle_by_plate_def plates_def find_None_iff)

lemma find_vehicle_Some:
  "find_vehicle_by_plate w plate = Some v \<Longrightarrow>
     v \<in> set (vehicles (register w)) \<and> registration_plate (vehicle_at w v) = plate"
  by (auto simp: find_vehicle_by_plate_def find_Some_iff)

lemma reassign_returns: "fst (reassign v p w) = Returns 1"
  by (simp add: reassign_def Let_def)

subsection \<open>The counter of a person\<close>

lemma count_step_nonneg: "0 \<le> vehicle_count p \<Longrightarrow> 0 \<le> vehicle_count (count_step p c)"
  by (cases c) (simp_all add: increment_vehicle_count_def decrement_vehicle_count_def)

lemma count_steps_nonneg: "0 \<le> vehicle_count p \<Longrightarrow> 0 \<le> vehicle_count (foldl count_step p cs)"
proof (induction cs arbitrary: p)
  case Nil
  then show ?case by simp
next
  case (Cons c cs)
  from Cons.prems have "0 \<le> vehicle_count (count_step p c)" by (rule count_step_nonneg)
  then show ?case using Cons.IH by simp
qed

text \<open>
  C10. \<open>decrement_vehicle_count\<close> lowers the counter by exactly 1 when it is positive
  and otherwise returns the person unchanged (it is a total function: there is no error
  to signal); hence after construction and any sequence of increments and decrements the
  counter is at least 0.
\<close>

theorem decrement_clamps_at_zero:
  "decrement_vehicle_count p =
     (if 0 < vehicle_count p then p\<lparr>vehicle_count := vehicle_count p - 1\<rparr> else p) \<and>
   vehicle_count (decrement_vehicle_count p) =
     (if 0 < vehicle_count p then vehicle_count p - 1 else vehicle_count p) \<and>
   0 \<le> vehicle_count (foldl count_step (Person_init n s a) cs)"
proof -
  have "0 \<le> vehicle_count (Person_init n s a)" by (simp add: Person_init_def)
  then have "0 \<le> vehicle_count (foldl count_step (Person_init n s a) cs)"
    by (rule count_steps_nonneg)
  then show ?thesis by (simp add: decrement_vehicle_count_def)
qed

subsection \<open>Rejected calls\<close>

lemma insert_returns_0:
  "fst (insert_vehicle v w) = Returns 0 \<longleftrightarrow>
     registration_plate (vehicle_at w v) \<in> set (plates w)"
  using contains_same_vehicle[of w v] by (simp add: insert_vehicle_def Let_def)

lemma insert_0_same: "fst (insert_vehicle v w) = Returns 0 \<Longrightarrow> snd (insert_vehicle v w) = w"
  by (auto simp: insert_vehicle_def Let_def split: if_splits)

lemma update_returns_0:
  "fst (update_vehicle_owner plate p w) = Returns 0 \<longleftrightarrow>
     (case find_vehicle_by_plate w plate of
        None \<Rightarrow> True
      | Some v \<Rightarrow> Person_eq (person_at w (owner (vehicle_at w v))) (person_at w p))"
  by (auto simp: update_vehicle_owner_def Let_def reassign_returns same_person_def
      split: option.splits if_splits)

lemma update_0_same:
  "fst (update_vehicle_owner plate p w) = Returns 0 \<Longrightarrow>
   snd (update_vehicle_owner plate p w) = w"
  by (auto simp: update_vehicle_owner_def Let_def reassign_returns split: option.splits if_splits)

lemma delete_returns_0:
  "fst (delete_vehicle plate w) = Returns 0 \<longleftrightarrow> plate \<notin> set (plates w)"
  by (auto simp: delete_vehicle_def Let_def find_vehicle_None[symmetric]
      split: option.splits if_splits)

lemma delete_0_same:
  "fst (delete_vehicle plate w) = Returns 0 \<Longrightarrow> snd (delete_vehicle plate w) = w"
  by (auto simp: delete_vehicle_def Let_def split: option.splits if_splits)

text \<open>
  C4. Each of the three mutating operations returns 0 exactly in its rejection case
  (insert: the plate is already registered; update: no vehicle with the plate, or the
  vehicle found has an owner equal to the new one; delete: no vehicle with the plate),
  and whenever it returns 0 the whole world after the call is the world before it: the
  vehicles, the owners and every person's counter.
\<close>

theorem rejected_call_changes_nothing:
  "(fst (insert_vehicle v w) = Returns 0 \<longleftrightarrow>
      registration_plate (vehicle_at w v) \<in> set (plates w)) \<and>
   (fst (insert_vehicle v w) = Returns 0 \<longrightarrow> snd (insert_vehicle v w) = w) \<and>
   (fst (update_vehicle_owner plate p w) = Returns 0 \<longleftrightarrow>
      (case find_vehicle_by_plate w plate of
         None \<Rightarrow> True
       | Some u \<Rightarrow> Person_eq (person_at w (owner (vehicle_at w u))) (person_at w p))) \<and>
   (fst (update_vehicle_owner plate p w) = Returns 0 \<longrightarrow>
      snd (update_vehicle_owner plate p w) = w) \<and>
   (fst (delete_vehicle plate' w) = Returns 0 \<longleftrightarrow> plate' \<notin> set (plates w)) \<and>
   (fst (delete_vehicle plate' w) = Returns 0 \<longrightarrow> snd (delete_vehicle plate' w) = w)"
  using insert_returns_0[of v w] insert_0_same[of v w]
    update_returns_0[of plate p w] update_0_same[of plate p w]
    delete_returns_0[of plate' w] delete_0_same[of plate' w]
  by blast

theorem rejected_call_changes_nothing_witness:
  "fst (insert_vehicle 2 after_module_inserts) = Returns 0 \<and>
   snd (insert_vehicle 2 after_module_inserts) = after_module_inserts \<and>
   fst (update_vehicle_owner ''abc1'' 0 after_module_inserts) = Returns 0 \<and>
   snd (update_vehicle_owner ''abc1'' 0 after_module_inserts) = after_module_inserts \<and>
   fst (delete_vehicle ''not in register'' after_module_inserts) = Returns 0 \<and>
   snd (delete_vehicle ''not in register'' after_module_inserts) = after_module_inserts"
proof -
  have "fst (insert_vehicle 2 after_module_inserts) = Returns 0"
    and "fst (update_vehicle_owner ''abc1'' 0 after_module_inserts) = Returns 0"
    and "fst (delete_vehicle ''not in register'' after_module_inserts) = Returns 0"
    by code_simp+
  with rejected_call_changes_nothing
         [where v = 2 and w = after_module_inserts and plate = "''abc1''" and p = 0
            and plate' = "''not in register''"]
  show ?thesis by blast
qed

subsection \<open>What each store update leaves alone\<close>

lemma set_count_frame [simp]:
  "cars (set_count p f w) = cars w" "register (set_count p f w) = register w"
  "length (people (set_count p f w)) = length (people w)"
  by (simp_all add: set_count_def)

lemma set_owners_frame [simp]:
  "cars (set_owners ps w) = cars w" "people (set_owners ps w) = people w"
  "vehicles (register (set_owners ps w)) = vehicles (register w)"
  "owners (register (set_owners ps w)) = ps"
  by (simp_all add: set_owners_def)

lemma set_vehicles_frame [simp]:
  "cars (set_vehicles vs w) = cars w" "people (set_vehicles vs w) = people w"
  "vehicles (register (set_vehicles vs w)) = vs"
  "owners (register (set_vehicles vs w)) = owners (register w)"
  by (simp_all add: set_vehicles_def)

lemma set_owner_frame [simp]:
  "people (set_owner v p w) = people w" "register (set_owner v p w) = register w"
  "length (cars (set_owner v p w)) = length (cars w)"
  by (simp_all add: set_owner_def)

lemma set_owner_plate [simp]:
  "registration_plate (vehicle_at (set_owner v p w) u) = registration_plate (vehicle_at w u)"
  by (cases "v < length (cars w)")
     (auto simp: set_owner_def vehicle_at_def nth_list_update list_update_beyond not_less)

lemma vehicle_at_cong: "cars w' = cars w \<Longrightarrow> vehicle_at w' v = vehicle_at w v"
  by (simp add: vehicle_at_def)

lemma person_at_cong: "people w' = people w \<Longrightarrow> person_at w' p = person_at w p"
  by (simp add: person_at_def)

subsection \<open>Inserting a vehicle with a new plate\<close>

text \<open>
  C6. When no vehicle of the register has the plate of \<open>v\<close>, \<open>insert_vehicle v\<close>
  returns 1; afterwards \<open>v\<close> is the last element of \<open>vehicles\<close>, behind the
  vehicles that were there; the owner of \<open>v\<close> is appended at the end of \<open>owners\<close>
  exactly when no person equal to it was in \<open>owners\<close>; and the counter of the owner
  object is one greater than before. Nothing else in the store changes.
\<close>

theorem insert_vehicle_new_plate:
  assumes "v < length (cars w)" and "owner (vehicle_at w v) < length (people w)"
    and "registration_plate (vehicle_at w v) \<notin> set (plates w)"
  shows "fst (insert_vehicle v w) = Returns 1 \<and>
     list_vehicles (snd (insert_vehicle v w)) = list_vehicles w @ [v] \<and>
     list_owners (snd (insert_vehicle v w)) =
       (if list_ex (\<lambda>q. Person_eq (person_at w q) (person_at w (owner (vehicle_at w v))))
             (list_owners w)
        then list_owners w else list_owners w @ [owner (vehicle_at w v)]) \<and>
     vehicle_count (person_at (snd (insert_vehicle v w)) (owner (vehicle_at w v))) =
       vehicle_count (person_at w (owner (vehicle_at w v))) + 1 \<and>
     cars (snd (insert_vehicle v w)) = cars w \<and>
     people (snd (insert_vehicle v w)) =
       (people w)[owner (vehicle_at w v) :=
          increment_vehicle_count (person_at w (owner (vehicle_at w v)))]"
proof -
  have fresh: "\<not> list_contains (same_vehicle w v) (vehicles (register w))"
    using assms(3) by (simp add: contains_same_vehicle)
  show ?thesis using fresh assms(2)
    by (simp add: insert_vehicle_def Let_def list_vehicles_def list_owners_def list_contains_def
        same_person_def set_vehicles_def set_owners_def set_count_def person_at_def vehicle_at_def
        increment_vehicle_count_def)
qed

theorem insert_vehicle_new_plate_witness:
  "fst (insert_vehicle 0 one_car) = Returns 1 \<and>
   list_vehicles (snd (insert_vehicle 0 one_car)) = [0] \<and>
   list_owners (snd (insert_vehicle 0 one_car)) = [0] \<and>
   vehicle_count (person_at (snd (insert_vehicle 0 one_car)) 0) = 1"
proof -
  have a: "0 < length (cars one_car)" "owner (vehicle_at one_car 0) < length (people one_car)"
    "registration_plate (vehicle_at one_car 0) \<notin> set (plates one_car)"
    by (simp_all add: one_car_def Vehicle_init_def Person_init_def vehicle_at_def plates_def
        Register_init_def)
  have b: "owner (vehicle_at one_car 0) = 0" "list_vehicles one_car = []"
    "list_owners one_car = []" "vehicle_count (person_at one_car 0) = 0"
    by (simp_all add: one_car_def Vehicle_init_def Person_init_def vehicle_at_def person_at_def
        list_vehicles_def list_owners_def Register_init_def)
  from insert_vehicle_new_plate[OF a] show ?thesis by (simp add: b)
qed

subsection \<open>Plates stay unique\<close>

lemma list_remove_set: "list_remove P xs = Some ys \<Longrightarrow> set ys \<subseteq> set xs"
  by (induction xs arbitrary: ys) (auto split: if_splits)

lemma list_remove_distinct_map:
  "list_remove P xs = Some ys \<Longrightarrow> distinct (map f xs) \<Longrightarrow> distinct (map f ys)"
proof (induction xs arbitrary: ys)
  case Nil
  then show ?case by simp
next
  case (Cons x xs)
  show ?case
  proof (cases "P x")
    case True
    with Cons.prems show ?thesis by simp
  next
    case False
    with Cons.prems obtain zs where zs: "list_remove P xs = Some zs" "ys = x # zs"
      by auto
    have "set zs \<subseteq> set xs" using zs(1) by (rule list_remove_set)
    then have "f x \<notin> f ` set zs" using Cons.prems(2) by auto
    moreover have "distinct (map f zs)" using Cons.IH zs(1) Cons.prems(2) by simp
    ultimately show ?thesis using zs(2) by simp
  qed
qed

lemma plates_cong:
  "(\<And>v. registration_plate (vehicle_at w' v) = registration_plate (vehicle_at w v)) \<Longrightarrow>
   vehicles (register w') = vehicles (register w) \<Longrightarrow> plates w' = plates w"
  by (simp add: plates_def)

lemma reassign_vehicles:
  "vehicles (register (snd (reassign v p w))) = vehicles (register w)"
  by (simp add: reassign_def Let_def)

lemma reassign_plate:
  "registration_plate (vehicle_at (snd (reassign v p w)) u) = registration_plate (vehicle_at w u)"
  by (simp add: reassign_def Let_def vehicle_at_cong[of "set_count _ _ _"]
      vehicle_at_cong[of "set_owners _ _"])

lemma reassign_length: "length (cars (snd (reassign v p w))) = length (cars w)"
  by (simp add: reassign_def Let_def)

lemma update_vehicles:
  "vehicles (register (snd (update_vehicle_owner plate p w))) = vehicles (register w)"
  by (simp add: update_vehicle_owner_def Let_def reassign_vehicles split: option.splits)

lemma update_plate:
  "registration_plate (vehicle_at (snd (update_vehicle_owner plate p w)) u) =
   registration_plate (vehicle_at w u)"
  by (simp add: update_vehicle_owner_def Let_def reassign_plate
      vehicle_at_cong[of "set_count _ _ _"] vehicle_at_cong[of "set_owners _ _"]
      split: option.splits)

lemma update_length: "length (cars (snd (update_vehicle_owner plate p w))) = length (cars w)"
  by (simp add: update_vehicle_owner_def Let_def reassign_length split: option.splits)

lemma update_plates_ok: "plates_ok w \<Longrightarrow> plates_ok (snd (update_vehicle_owner plate p w))"
  by (simp add: plates_ok_def unique_plates_def vehicles_allocated_def update_vehicles
      update_length plates_cong[OF update_plate update_vehicles])

lemma delete_cars: "cars (snd (delete_vehicle plate w)) = cars w"
  by (simp add: delete_vehicle_def Let_def split: option.splits)

lemma delete_vehicles:
  "vehicles (register (snd (delete_vehicle plate w))) = vehicles (register w) \<or>
   (\<exists>P. list_remove P (vehicles (register w)) =
      Some (vehicles (register (snd (delete_vehicle plate w)))))"
  by (auto simp: delete_vehicle_def Let_def split: option.splits)

lemma delete_vehicles_subset:
  "set (vehicles (register (snd (delete_vehicle plate w)))) \<subseteq> set (vehicles (register w))"
  using delete_vehicles[of plate w] list_remove_set by fastforce

lemma delete_plates_ok:
  assumes "plates_ok w"
  shows "plates_ok (snd (delete_vehicle plate w))"
proof -
  let ?w' = "snd (delete_vehicle plate w)"
  let ?f = "\<lambda>v. registration_plate (cars w ! v)"
  have c: "cars ?w' = cars w" by (rule delete_cars)
  have d: "distinct (map ?f (vehicles (register ?w')))"
    using delete_vehicles[of plate w]
  proof
    assume "vehicles (register ?w') = vehicles (register w)"
    with assms show ?thesis
      by (simp add: plates_ok_def unique_plates_def plates_def vehicle_at_def)
  next
    assume "\<exists>P. list_remove P (vehicles (register w)) = Some (vehicles (register ?w'))"
    then obtain P where "list_remove P (vehicles (register w)) = Some (vehicles (register ?w'))" ..
    from list_remove_distinct_map[OF this, of ?f] assms show ?thesis
      by (simp add: plates_ok_def unique_plates_def plates_def vehicle_at_def)
  qed
  from assms delete_vehicles_subset[of plate w] have "vehicles_allocated ?w'"
    by (auto simp: plates_ok_def vehicles_allocated_def list_all_iff c)
  with d c show ?thesis
    by (simp add: plates_ok_def unique_plates_def plates_def vehicle_at_def)
qed

lemma insert_plates_ok:
  assumes "plates_ok w" "v < length (cars w)"
  shows "plates_ok (snd (insert_vehicle v w))"
proof (cases "list_contains (same_vehicle w v) (vehicles (register w))")
  case True
  then show ?thesis using assms by (simp add: insert_vehicle_def)
next
  case False
  then have new: "registration_plate (vehicle_at w v) \<notin> set (plates w)"
    by (simp add: contains_same_vehicle)
  have "vehicles (register (snd (insert_vehicle v w))) = vehicles (register w) @ [v]"
       "cars (snd (insert_vehicle v w)) = cars w"
    using False by (simp_all add: insert_vehicle_def Let_def)
  then show ?thesis using assms new
    by (simp add: plates_ok_def unique_plates_def vehicles_allocated_def plates_def vehicle_at_def)
qed

lemma perform_plates_ok:
  assumes "plates_ok w" "possible c w"
  shows "plates_ok (snd (perform c w))"
proof (cases c)
  case (NewPerson n s a)
  then show ?thesis using assms
    by (simp add: plates_ok_def unique_plates_def vehicles_allocated_def plates_def vehicle_at_def)
next
  case (NewVehicle plate date p)
  have "\<And>v. v \<in> set (vehicles (register w)) \<Longrightarrow>
          (cars w @ [Vehicle_init plate date p]) ! v = cars w ! v"
    using assms(1) by (simp add: plates_ok_def vehicles_allocated_def list_all_iff nth_append)
  then have "plates (w\<lparr>cars := cars w @ [Vehicle_init plate date p]\<rparr>) = plates w"
    by (simp add: plates_def vehicle_at_def)
  then show ?thesis using assms NewVehicle
    by (auto simp: plates_ok_def unique_plates_def vehicles_allocated_def list_all_iff)
next
  case (InsertVehicle v)
  then show ?thesis using assms insert_plates_ok[of w v] by (simp add: split_beta)
next
  case (UpdateVehicleOwner plate p)
  then show ?thesis using assms update_plates_ok[of w plate p] by (simp add: split_beta)
next
  case (DeleteVehicle plate)
  then show ?thesis using assms delete_plates_ok[of w plate] by (simp add: split_beta)
qed

lemma run_Cons_Some:
  assumes "run (c # cs) w = Some (rs, w')"
  shows "possible c w \<and> (\<exists>rs'. run cs (snd (perform c w)) = Some (rs', w'))"
  using assms by (auto split: if_splits prod.splits)

lemma run_plates_ok: "plates_ok w \<Longrightarrow> run cs w = Some (rs, w') \<Longrightarrow> plates_ok w'"
proof (induction cs arbitrary: w rs)
  case Nil
  then show ?case by simp
next
  case (Cons c cs)
  from run_Cons_Some[OF Cons.prems(2)] obtain rs'
    where ok: "possible c w" and rest: "run cs (snd (perform c w)) = Some (rs', w')"
    by blast
  have "plates_ok (snd (perform c w))" using Cons.prems(1) ok by (rule perform_plates_ok)
  then show ?case using Cons.IH rest by blast
qed

lemma plates_ok_empty: "plates_ok empty_world"
  by (simp add: plates_ok_def unique_plates_def vehicles_allocated_def plates_def empty_world_def
      Register_init_def)

text \<open>
  C8. In every world reached from the empty register by constructing objects and calling
  \<open>insert_vehicle\<close>, \<open>update_vehicle_owner\<close> and \<open>delete_vehicle\<close> (also after a call
  that raised), no two vehicles of the register share a plate. The reasons are the ones
  the claim gives: \<open>insert_vehicle\<close> returns 0 exactly when the plate already occurs,
  \<open>update_vehicle_owner\<close> leaves the sequence of vehicles as it is, and
  \<open>delete_vehicle\<close> only takes vehicles away.
\<close>

theorem reachable_plates_unique:
  assumes "run cs empty_world = Some (rs, w)"
  shows "unique_plates w \<and>
    (fst (insert_vehicle v w) = Returns 0 \<longleftrightarrow>
       registration_plate (vehicle_at w v) \<in> set (plates w)) \<and>
    list_vehicles (snd (update_vehicle_owner plate p w)) = list_vehicles w \<and>
    set (list_vehicles (snd (delete_vehicle plate w))) \<subseteq> set (list_vehicles w)"
proof -
  from run_plates_ok[OF plates_ok_empty assms] have "unique_plates w"
    by (simp add: plates_ok_def)
  then show ?thesis
    using insert_returns_0[of v w] update_vehicles[of plate p w]
      delete_vehicles_subset[of plate w]
    by (simp add: list_vehicles_def)
qed

theorem reachable_plates_unique_witness:
  "run (module_objects @ module_inserts) empty_world =
     Some ([Returns 1, Returns 1, Returns 0, Returns 1], after_module_inserts) \<and>
   unique_plates after_module_inserts \<and>
   plates after_module_inserts = [''abc0'', ''abc1'', ''xyz'']"
proof -
  have r: "run (module_objects @ module_inserts) empty_world =
     Some ([Returns 1, Returns 1, Returns 0, Returns 1], after_module_inserts)"
    by code_simp
  have "plates after_module_inserts = [''abc0'', ''abc1'', ''xyz'']"
    by code_simp
  with r reachable_plates_unique[OF r] show ?thesis by simp
qed

section \<open>The module's own test code\<close>

text \<open>The assertions at the end of the module hold in the model: the results of the
  twelve register calls, the register after the insertions, and the empty register at
  the end.\<close>

lemma module_test_results:
  "map_option fst
     (run (module_objects @ module_inserts @ module_updates @ module_deletes) empty_world) =
   Some [Returns 1, Returns 1, Returns 0, Returns 1,
         Returns 0, Returns 0, Returns 1, Returns 1,
         Returns 0, Returns 1, Returns 1, Returns 1]"
  by code_simp

lemma module_test_after_updates:
  "map_option (\<lambda>(rs, w). (list_vehicles w, map (person_at w) (list_owners w)))
     (run (module_objects @ module_inserts @ module_updates) empty_world) =
   Some ([0, 1, 3], [\<lparr>name = ''Alice'', surname = ''Doe'', age = 22, vehicle_count = 3\<rparr>])"
  by code_simp

lemma module_test_final_register:
  "map_option (\<lambda>(rs, w). (list_vehicles w, list_owners w))
     (run (module_objects @ module_inserts @ module_updates @ module_deletes) empty_world) =
   Some ([], [])"
  by code_simp

section \<open>Two equal Person objects\<close>

text \<open>
  \<open>insert_vehicle\<close> and \<open>update_vehicle_owner\<close> decide by \<open>Person\<close> equality whether the
  owner is already in \<open>owners\<close>, but count on the object they were handed; and
  \<open>owners.remove\<close> drops the first person equal to the one whose own counter reached 0.
  With two \<open>Person\<close> objects of the same name, surname and age the counters and the
  \<open>owners\<close> list come apart.
\<close>

text \<open>
  C2 (fails on the code). After registering \<open>abc0\<close> for the first John object and
  \<open>abc1\<close> for the second, equal one (both calls return 1), \<open>owners\<close> holds the first
  object only, its counter is 1, and two registered vehicles have an owner equal to it.
\<close>

theorem count_misses_equal_owner_object:
  "run john_twice empty_world = Some ([Returns 1, Returns 1], twins_registered) \<and>
   list_owners twins_registered = [0] \<and>
   vehicle_count (person_at twins_registered 0) = 1 \<and>
   list_vehicle_by_owner 0 twins_registered = [0, 1] \<and>
   counts_agree twins_registered = False"
  by code_simp

text \<open>
  C1 (fails on the code). Deleting \<open>abc1\<close> next returns 1, brings the counter of the
  second John object to 0 and removes the first John object from \<open>owners\<close>: vehicle
  \<open>abc0\<close> is still registered and its owner is in \<open>owners\<close> no more.
\<close>

theorem owners_omits_registered_owner:
  "run (john_twice @ [DeleteVehicle ''abc1'']) empty_world =
     Some ([Returns 1, Returns 1, Returns 1], twins_abc1_deleted) \<and>
   list_vehicles twins_abc1_deleted = [0] \<and>
   owner (vehicle_at twins_abc1_deleted 0) = 0 \<and>
   list_owners twins_abc1_deleted = [] \<and>
   no_omitted_owners twins_abc1_deleted = False \<and>
   owners_exact twins_abc1_deleted = False"
  by code_simp

text \<open>
  C9 (fails on the code). Deleting \<open>abc0\<close> instead returns 1 and empties \<open>owners\<close>
  too; John is then equal to no person of \<open>list_owners\<close>, and
  \<open>list_vehicle_by_owner\<close> for John still returns vehicle \<open>abc1\<close>.
\<close>

theorem unlisted_owner_has_vehicle:
  "run (john_twice @ [DeleteVehicle ''abc0'']) empty_world =
     Some ([Returns 1, Returns 1, Returns 1], twins_abc0_deleted) \<and>
   list_owners twins_abc0_deleted = [] \<and>
   list_contains (same_person twins_abc0_deleted 0) (list_owners twins_abc0_deleted) = False \<and>
   list_vehicle_by_owner 0 twins_abc0_deleted = [1]"
  by code_simp

text \<open>
  C3 (fails on the code). After \<open>john_twice\<close> and the deletion of \<open>abc1\<close>, all
  returning 1, deleting \<open>abc0\<close> raises \<open>ValueError\<close>: the counter of its owner reaches
  0 and \<open>owners.remove\<close> finds no equal person in the empty list.
\<close>

theorem delete_raises_value_error:
  "map_option fst (run (john_twice @ [DeleteVehicle ''abc1'', DeleteVehicle ''abc0'']) empty_world) =
     Some [Returns 1, Returns 1, Returns 1, Raises ValueError] \<and>
   list_remove (same_person twins_abc1_deleted 0) (list_owners twins_abc1_deleted) = None"
  by code_simp

text \<open>
  C5 (fails on the code). In the world reached by \<open>john_twice\<close> and the deletion of
  \<open>abc1\<close>, vehicle \<open>abc0\<close> is registered and its owner John is not equal to Alice
  (person 2), yet \<open>update_vehicle_owner\<close> does not return 1: it raises \<open>ValueError\<close>,
  with John's counter already lowered and the vehicle still John's.
\<close>

theorem update_raises_value_error:
  "run (john_twice @ [DeleteVehicle ''abc1'']) empty_world =
     Some ([Returns 1, Returns 1, Returns 1], twins_abc1_deleted) \<and>
   find_vehicle_by_plate twins_abc1_deleted ''abc0'' = Some 0 \<and>
   Person_eq (person_at twins_abc1_deleted (owner (vehicle_at twins_abc1_deleted 0)))
     (person_at twins_abc1_deleted 2) = False \<and>
   fst (update_vehicle_owner ''abc0'' 2 twins_abc1_deleted) = Raises ValueError \<and>
   owner (vehicle_at (snd (update_vehicle_owner ''abc0'' 2 twins_abc1_deleted)) 0) = 0 \<and>
   vehicle_count (person_at (snd (update_vehicle_owner ''abc0'' 2 twins_abc1_deleted)) 0) = 0"
  by code_simp

text \<open>
  C7 (fails on the code). After \<open>john_twice\<close> and the transfer of \<open>abc1\<close> to Alice,
  all returning 1, a vehicle with plate \<open>abc0\<close> is registered, yet
  \<open>delete_vehicle\<close> does not return 1: it raises \<open>ValueError\<close> after taking the vehicle
  out of \<open>vehicles\<close>.
\<close>

theorem delete_of_registered_plate_raises:
  "run (john_twice @ [UpdateVehicleOwner ''abc1'' 2]) empty_world =
     Some ([Returns 1, Returns 1, Returns 1], twins_abc1_transferred) \<and>
   plates twins_abc1_transferred = [''abc0'', ''abc1''] \<and>
   fst (delete_vehicle ''abc0'' twins_abc1_transferred) = Raises ValueError \<and>
   list_vehicles (snd (delete_vehicle ''abc0'' twins_abc1_transferred)) = [1] \<and>
   list_owners (snd (delete_vehicle ''abc0'' twins_abc1_transferred)) = [2]"
  by code_simp

section \<open>Person equality as object identity\<close>

lemma same_person_keys:
  "p < length (people w) \<Longrightarrow> q < length (people w) \<Longrightarrow>
   same_person w p q \<longleftrightarrow> keys w ! q = keys w ! p"
  by (simp add: same_person_def Person_eq_def identity_key_def keys_def person_at_def)

lemma same_person_unique:
  "persons_unique w \<Longrightarrow> p < length (people w) \<Longrightarrow> q < length (people w) \<Longrightarrow>
   same_person w p q \<longleftrightarrow> q = p"
proof -
  assume u: "persons_unique w" and p: "p < length (people w)" and q: "q < length (people w)"
  have "keys w ! q = keys w ! p \<longleftrightarrow> q = p"
    using u p q by (simp add: persons_unique_def nth_eq_iff_index_eq keys_def del: nth_map)
  then show ?thesis using p q by (simp add: same_person_keys)
qed

lemma contains_person_iff:
  assumes "persons_unique w" "p < length (people w)" "\<forall>q\<in>set xs. q < length (people w)"
  shows "list_contains (same_person w p) xs \<longleftrightarrow> p \<in> set xs"
  using assms by (auto simp: list_contains_iff same_person_unique)

lemma list_remove_the_one:
  "x \<in> set xs \<Longrightarrow> (\<forall>y\<in>set xs. P y \<longleftrightarrow> y = x) \<Longrightarrow> list_remove P xs = Some (remove1 x xs)"
  by (induction xs) auto

lemma remove_person:
  assumes "persons_unique w" "p \<in> set xs" "\<forall>q\<in>set xs. q < length (people w)"
  shows "list_remove (same_person w p) xs = Some (remove1 p xs)"
  using assms by (intro list_remove_the_one) (auto simp: same_person_unique)

lemma map_key_update:
  "identity_key y = identity_key (xs ! p) \<Longrightarrow> map identity_key (xs[p := y]) = map identity_key xs"
  by (cases "p < length xs") (simp_all add: map_update list_update_same_conv list_update_beyond)

lemma keys_increment [simp]: "keys (set_count p increment_vehicle_count w) = keys w"
  by (simp add: keys_def set_count_def person_at_def increment_vehicle_count_def identity_key_def
      map_key_update)

lemma keys_decrement [simp]: "keys (set_count p decrement_vehicle_count w) = keys w"
  by (simp add: keys_def set_count_def person_at_def decrement_vehicle_count_def identity_key_def
      map_key_update)

lemma keys_frame [simp]:
  "keys (set_vehicles vs w) = keys w" "keys (set_owners ps w) = keys w"
  "keys (set_owner v p w) = keys w"
  by (simp_all add: keys_def)

lemma length_keys [simp]: "length (keys w) = length (people w)"
  by (simp add: keys_def)

lemma persons_unique_cong: "keys w' = keys w \<Longrightarrow> persons_unique w' = persons_unique w"
  by (simp add: persons_unique_def)

lemma length_people_cong: "keys w' = keys w \<Longrightarrow> length (people w') = length (people w)"
  by (metis length_keys)

section \<open>What the operations do when persons are unique\<close>

lemma consistentD:
  assumes "consistent w"
  shows "\<And>v. v \<in> set (vehicles (register w)) \<Longrightarrow> v < length (cars w)"
    and "\<And>v. v < length (cars w) \<Longrightarrow> owner_of w v < length (people w)"
    and "distinct (plates w)"
    and "distinct (owners (register w))"
    and "set (owners (register w)) = owner_of w ` set (vehicles (register w))"
    and "\<And>p. p < length (people w) \<Longrightarrow> vehicle_count (person_at w p) = int (length (owned_by w p))"
  using assms
  by (auto simp: consistent_def vehicles_allocated_def unique_plates_def list_all_iff owner_of_def
      vehicle_at_def)

lemma consistentI:
  assumes "\<And>v. v \<in> set (vehicles (register w)) \<Longrightarrow> v < length (cars w)"
    and "\<And>v. v < length (cars w) \<Longrightarrow> owner_of w v < length (people w)"
    and "distinct (plates w)"
    and "distinct (owners (register w))"
    and "set (owners (register w)) = owner_of w ` set (vehicles (register w))"
    and "\<And>p. p < length (people w) \<Longrightarrow> vehicle_count (person_at w p) = int (length (owned_by w p))"
  shows "consistent w"
  using assms
  by (auto simp: consistent_def vehicles_allocated_def unique_plates_def list_all_iff owner_of_def
      vehicle_at_def in_set_conv_nth)

lemma consistent_vehicles_distinct: "consistent w \<Longrightarrow> distinct (vehicles (register w))"
  using consistentD(3)[of w] by (simp add: plates_def distinct_map)

lemma consistent_owner_allocated:
  "consistent w \<Longrightarrow> p \<in> set (owners (register w)) \<Longrightarrow> p < length (people w)"
  using consistentD(1,2,5)[of w] by auto

lemma consistent_same_plate:
  assumes "consistent w" "v \<in> set (vehicles (register w))" "u \<in> set (vehicles (register w))"
  shows "same_vehicle w v u \<longleftrightarrow> u = v"
  using consistentD(3)[OF assms(1)] assms(2,3)
  by (auto simp: same_vehicle_def Vehicle_eq_def plates_def distinct_map inj_on_def)

lemma owned_by_member:
  "v \<in> set (vehicles (register w)) \<Longrightarrow> v \<in> set (owned_by w (owner_of w v))"
  by (simp add: owned_by_def)

lemma consistent_count_pos:
  assumes "consistent w" "v \<in> set (vehicles (register w))"
  shows "0 < vehicle_count (person_at w (owner_of w v))"
proof -
  have "owner_of w v < length (people w)" using assms consistentD(1,2) by blast
  then have "vehicle_count (person_at w (owner_of w v)) = int (length (owned_by w (owner_of w v)))"
    using assms(1) consistentD(6) by blast
  moreover have "owned_by w (owner_of w v) \<noteq> []" using owned_by_member[OF assms(2)] by auto
  ultimately show ?thesis by simp
qed

lemma persons_unique_frame [simp]:
  "persons_unique (set_vehicles vs w) = persons_unique w"
  "persons_unique (set_owners ps w) = persons_unique w"
  "persons_unique (set_owner v p w) = persons_unique w"
  "persons_unique (set_count q increment_vehicle_count w) = persons_unique w"
  "persons_unique (set_count q decrement_vehicle_count w) = persons_unique w"
  by (simp_all add: persons_unique_def)

lemma owner_of_frame [simp]:
  "owner_of (set_vehicles vs w) = owner_of w" "owner_of (set_owners ps w) = owner_of w"
  "owner_of (set_count q f w) = owner_of w"
  by (simp_all add: owner_of_def vehicle_at_def fun_eq_iff)

lemma insert_effect:
  assumes u: "persons_unique w" and c: "consistent w" and v: "v < length (cars w)"
    and fresh: "registration_plate (vehicle_at w v) \<notin> set (plates w)"
  shows "fst (insert_vehicle v w) = Returns 1 \<and>
    cars (snd (insert_vehicle v w)) = cars w \<and>
    vehicles (register (snd (insert_vehicle v w))) = vehicles (register w) @ [v] \<and>
    owners (register (snd (insert_vehicle v w))) =
      (if owner_of w v \<in> set (owners (register w)) then owners (register w)
       else owners (register w) @ [owner_of w v]) \<and>
    people (snd (insert_vehicle v w)) =
      (people w)[owner_of w v := increment_vehicle_count (person_at w (owner_of w v))]"
proof -
  let ?w1 = "set_vehicles (vehicles (register w) @ [v]) w"
  let ?o = "owner_of w v"
  have o: "?o < length (people w)" using consistentD(2)[OF c v] .
  have "list_contains (same_person ?w1 ?o) (owners (register w)) \<longleftrightarrow> ?o \<in> set (owners (register w))"
    using contains_person_iff[of ?w1 ?o "owners (register w)"] u o consistent_owner_allocated[OF c]
    by simp
  moreover have "owner (vehicle_at ?w1 v) = ?o"
    by (simp add: owner_of_def vehicle_at_cong[of ?w1 w])
  moreover have "\<not> list_contains (same_vehicle w v) (vehicles (register w))"
    using fresh by (simp add: contains_same_vehicle)
  ultimately show ?thesis
    by (simp add: insert_vehicle_def Let_def set_count_def person_at_def)
qed

lemma decrement_positive:
  "0 < vehicle_count p \<Longrightarrow> vehicle_count (decrement_vehicle_count p) = vehicle_count p - 1"
  by (simp add: decrement_vehicle_count_def)

lemma count_after_set_count:
  "p < length (people w) \<Longrightarrow> person_at (set_count p f w) p = f (person_at w p)"
  by (simp add: set_count_def person_at_def)

lemma delete_effect:
  assumes u: "persons_unique w" and c: "consistent w"
    and f: "find_vehicle_by_plate w plate = Some v"
  shows "fst (delete_vehicle plate w) = Returns 1 \<and>
    cars (snd (delete_vehicle plate w)) = cars w \<and>
    vehicles (register (snd (delete_vehicle plate w))) = remove1 v (vehicles (register w)) \<and>
    owners (register (snd (delete_vehicle plate w))) =
      (if vehicle_count (person_at w (owner_of w v)) = 1
       then remove1 (owner_of w v) (owners (register w)) else owners (register w)) \<and>
    people (snd (delete_vehicle plate w)) =
      (people w)[owner_of w v := decrement_vehicle_count (person_at w (owner_of w v))]"
proof -
  let ?p = "owner_of w v"
  let ?w1 = "set_vehicles (remove1 v (vehicles (register w))) w"
  let ?w2 = "set_count ?p decrement_vehicle_count ?w1"
  have vin: "v \<in> set (vehicles (register w))" using find_vehicle_Some[OF f] by simp
  have p: "?p < length (people w)" using consistentD(1,2)[OF c] vin by blast
  have pos: "0 < vehicle_count (person_at w ?p)" using consistent_count_pos[OF c vin] .
  have rv: "list_remove (same_vehicle w v) (vehicles (register w)) =
      Some (remove1 v (vehicles (register w)))"
    using vin consistent_same_plate[OF c vin] by (intro list_remove_the_one) auto
  have "person_at ?w2 ?p = decrement_vehicle_count (person_at w ?p)"
    using p by (simp add: count_after_set_count person_at_cong[of ?w1 w])
  then have cnt: "vehicle_count (person_at ?w2 ?p) = vehicle_count (person_at w ?p) - 1"
    using pos by (simp add: decrement_positive)
  have pin: "?p \<in> set (owners (register w))" using consistentD(5)[OF c] vin by blast
  have rp: "list_remove (same_person ?w2 ?p) (owners (register w)) =
      Some (remove1 ?p (owners (register w)))"
    using remove_person[of ?w2 ?p "owners (register w)"] u pin consistent_owner_allocated[OF c]
    by simp
  have eq1: "vehicle_count (person_at w ?p) - 1 = 0 \<longleftrightarrow> vehicle_count (person_at w ?p) = 1"
    by auto
  show ?thesis
    using f rv rp cnt eq1
    by (simp add: delete_vehicle_def Let_def owner_of_def[symmetric] set_count_def
        person_at_cong[of ?w1 w])
qed

lemma reassign_effect:
  assumes u: "persons_unique w" and n: "n < length (people w)"
    and a: "\<forall>q\<in>set (owners (register w)). q < length (people w)"
  shows "fst (reassign v n w) = Returns 1 \<and>
    cars (snd (reassign v n w)) = (cars w)[v := (vehicle_at w v)\<lparr>owner := n\<rparr>] \<and>
    vehicles (register (snd (reassign v n w))) = vehicles (register w) \<and>
    owners (register (snd (reassign v n w))) =
      (if n \<in> set (owners (register w)) then owners (register w)
       else owners (register w) @ [n]) \<and>
    people (snd (reassign v n w)) = (people w)[n := increment_vehicle_count (person_at w n)]"
proof -
  let ?w1 = "set_owner v n w"
  have "list_contains (same_person ?w1 n) (owners (register w)) \<longleftrightarrow> n \<in> set (owners (register w))"
    using contains_person_iff[of ?w1 n "owners (register w)"] u n a by simp
  then show ?thesis
    by (simp add: reassign_def Let_def set_count_def person_at_def) (simp add: set_owner_def)
qed

lemma update_effect:
  assumes u: "persons_unique w" and c: "consistent w"
    and f: "find_vehicle_by_plate w plate = Some v"
    and n: "n < length (people w)" and diff: "owner_of w v \<noteq> n"
  shows "fst (update_vehicle_owner plate n w) = Returns 1 \<and>
    cars (snd (update_vehicle_owner plate n w)) = (cars w)[v := (vehicle_at w v)\<lparr>owner := n\<rparr>] \<and>
    vehicles (register (snd (update_vehicle_owner plate n w))) = vehicles (register w) \<and>
    owners (register (snd (update_vehicle_owner plate n w))) =
      (let ps = (if vehicle_count (person_at w (owner_of w v)) = 1
                 then remove1 (owner_of w v) (owners (register w)) else owners (register w))
       in if n \<in> set ps then ps else ps @ [n]) \<and>
    people (snd (update_vehicle_owner plate n w)) =
      (people w)[owner_of w v := decrement_vehicle_count (person_at w (owner_of w v)),
                 n := increment_vehicle_count (person_at w n)]"
proof -
  let ?old = "owner_of w v"
  let ?w1 = "set_count ?old decrement_vehicle_count w"
  let ?ps = "remove1 ?old (owners (register w))"
  have vin: "v \<in> set (vehicles (register w))" using find_vehicle_Some[OF f] by simp
  have old: "?old < length (people w)" using consistentD(1,2)[OF c] vin by blast
  have pos: "0 < vehicle_count (person_at w ?old)" using consistent_count_pos[OF c vin] .
  have ne: "\<not> same_person w n ?old" using same_person_unique[OF u n old] diff by simp
  have "person_at ?w1 ?old = decrement_vehicle_count (person_at w ?old)"
    using old by (simp add: count_after_set_count)
  then have cnt: "vehicle_count (person_at ?w1 ?old) = vehicle_count (person_at w ?old) - 1"
    using pos by (simp add: decrement_positive)
  have eq1: "vehicle_count (person_at w ?old) - 1 = 0 \<longleftrightarrow> vehicle_count (person_at w ?old) = 1"
    by auto
  have oin: "?old \<in> set (owners (register w))" using consistentD(5)[OF c] vin by blast
  have al: "\<forall>q\<in>set (owners (register w)). q < length (people w)"
    using consistent_owner_allocated[OF c] by blast
  have rp: "list_remove (same_person ?w1 ?old) (owners (register w)) = Some ?ps"
    using remove_person[of ?w1 ?old "owners (register w)"] u oin al by simp
  have pn: "person_at ?w1 n = person_at w n"
    using diff by (simp add: set_count_def person_at_def)
  have va: "vehicle_at ?w1 v = vehicle_at w v" by (rule vehicle_at_cong) simp
  have pe: "people ?w1 = (people w)[?old := decrement_vehicle_count (person_at w ?old)]"
    by (simp add: set_count_def)
  show ?thesis
  proof (cases "vehicle_count (person_at w ?old) = 1")
    case True
    let ?w2 = "set_owners ?ps ?w1"
    have r: "update_vehicle_owner plate n w = reassign v n ?w2"
      using f ne cnt True rp
      by (simp add: update_vehicle_owner_def Let_def owner_of_def[symmetric])
    have "\<forall>q\<in>set (owners (register ?w2)). q < length (people ?w2)"
      using al by (auto dest: notin_set_remove1)
    from reassign_effect[of ?w2 n v, OF _ _ this] u n True pn va pe show ?thesis
      by (simp add: r Let_def person_at_cong[of ?w2 ?w1] vehicle_at_cong[of ?w2 ?w1])
  next
    case False
    have r: "update_vehicle_owner plate n w = reassign v n ?w1"
      using f ne cnt False eq1
      by (simp add: update_vehicle_owner_def Let_def owner_of_def[symmetric])
    have "\<forall>q\<in>set (owners (register ?w1)). q < length (people ?w1)"
      using al by simp
    from reassign_effect[of ?w1 n v, OF _ _ this] u n False pn va pe show ?thesis
      by (simp add: r Let_def)
  qed
qed

lemma update_same_owner:
  assumes u: "persons_unique w" and c: "consistent w"
    and f: "find_vehicle_by_plate w plate = Some v"
    and n: "n < length (people w)" and same: "owner_of w v = n"
  shows "update_vehicle_owner plate n w = (Returns 0, w)"
  using f same by (simp add: update_vehicle_owner_def same_person_def Person_eq_def owner_of_def)

section \<open>Counting the vehicles of an owner\<close>

lemma count_remove1:
  assumes "distinct xs" "v \<in> set xs"
  shows "int (length (filter (\<lambda>u. g u = q) (remove1 v xs))) =
         int (length (filter (\<lambda>u. g u = q) xs)) - (if g v = q then 1 else 0)"
proof (cases "g v = q")
  case True
  then have "v \<in> set (filter (\<lambda>u. g u = q) xs)" using assms(2) by simp
  then have "length (remove1 v (filter (\<lambda>u. g u = q) xs)) = length (filter (\<lambda>u. g u = q) xs) - 1"
    and "0 < length (filter (\<lambda>u. g u = q) xs)"
    by (simp add: length_remove1, rule length_pos_if_in_set)
  then show ?thesis using True
    by (cases "filter (\<lambda>u. g u = q) xs") (simp_all add: filter_remove1)
next
  case False
  then have "remove1 v (filter (\<lambda>u. g u = q) xs) = filter (\<lambda>u. g u = q) xs"
    by (simp add: remove1_idem)
  then show ?thesis using False by (simp add: filter_remove1)
qed

lemma sole_vehicle_image:
  assumes "distinct xs" "v \<in> set xs" "length (filter (\<lambda>u. g u = g v) xs) = 1"
  shows "g ` (set xs - {v}) = g ` set xs - {g v}"
proof -
  have "card {u \<in> set xs. g u = g v} = 1"
    using assms(1,3) by (simp add: distinct_length_filter Int_def conj_commute)
  then obtain a where "{u \<in> set xs. g u = g v} = {a}" by (rule card_1_singletonE)
  moreover have "v \<in> {u \<in> set xs. g u = g v}" using assms(2) by simp
  ultimately have "{u \<in> set xs. g u = g v} = {v}" by auto
  then have "\<And>u. u \<in> set xs \<Longrightarrow> g u = g v \<Longrightarrow> u = v" by blast
  then show ?thesis by auto
qed

lemma other_vehicle_image:
  assumes "distinct xs" "v \<in> set xs" "length (filter (\<lambda>u. g u = g v) xs) \<noteq> 1"
  shows "g ` (set xs - {v}) = g ` set xs"
proof -
  let ?A = "{u \<in> set xs. g u = g v}"
  have c: "card ?A \<noteq> 1"
    using assms(1,3) by (simp add: distinct_length_filter Int_def conj_commute)
  have "\<exists>u\<in>?A. u \<noteq> v"
  proof (rule ccontr)
    assume "\<not> (\<exists>u\<in>?A. u \<noteq> v)"
    then have "?A = {v}" using assms(2) by auto
    then show False using c by simp
  qed
  then obtain u where "u \<in> set xs" "g u = g v" "u \<noteq> v" by blast
  then have "g v \<in> g ` (set xs - {v})" by (metis DiffI image_eqI singletonD)
  then show ?thesis by auto
qed

lemma count_reassigned:
  assumes "distinct xs" "v \<in> set xs"
  shows "int (length (filter (\<lambda>u. (g(v := n)) u = q) xs)) =
         int (length (filter (\<lambda>u. g u = q) xs)) - (if g v = q then 1 else 0) +
           (if n = q then 1 else 0)"
proof -
  from assms(2) obtain ys zs where xs: "xs = ys @ v # zs" by (auto dest: split_list)
  with assms(1) have "v \<notin> set ys" "v \<notin> set zs" by auto
  then have "filter (\<lambda>u. (g(v := n)) u = q) ys = filter (\<lambda>u. g u = q) ys"
    and "filter (\<lambda>u. (g(v := n)) u = q) zs = filter (\<lambda>u. g u = q) zs"
    by (auto intro: filter_cong)
  then show ?thesis by (simp add: xs)
qed

lemma image_reassigned:
  "v \<in> set xs \<Longrightarrow> (g(v := n)) ` set xs = g ` (set xs - {v}) \<union> {n}"
  by auto

section \<open>The operations keep the register consistent\<close>

lemma owner_of_cong: "cars w' = cars w \<Longrightarrow> owner_of w' = owner_of w"
  by (simp add: owner_of_def vehicle_at_def fun_eq_iff)

lemma plates_eq:
  "plates w = map (\<lambda>v. registration_plate (cars w ! v)) (vehicles (register w))"
  by (simp add: plates_def vehicle_at_def)

lemma insert_consistent:
  assumes u: "persons_unique w" and c: "consistent w" and v: "v < length (cars w)"
  shows "consistent (snd (insert_vehicle v w))"
proof (cases "registration_plate (vehicle_at w v) \<in> set (plates w)")
  case True
  then have "snd (insert_vehicle v w) = w" by (simp add: insert_returns_0 insert_0_same)
  then show ?thesis using c by simp
next
  case False
  let ?w' = "snd (insert_vehicle v w)"
  let ?o = "owner_of w v"
  note e = insert_effect[OF u c v False]
  have cars: "cars ?w' = cars w" and vs: "vehicles (register ?w') = vehicles (register w) @ [v]"
    and os: "owners (register ?w') =
      (if ?o \<in> set (owners (register w)) then owners (register w) else owners (register w) @ [?o])"
    and ps: "people ?w' = (people w)[?o := increment_vehicle_count (person_at w ?o)]"
    using e by simp_all
  have oo: "owner_of ?w' = owner_of w" using cars by (rule owner_of_cong)
  show ?thesis
  proof (rule consistentI)
    fix x assume "x \<in> set (vehicles (register ?w'))"
    then show "x < length (cars ?w')" using consistentD(1)[OF c] v by (auto simp: vs cars)
  next
    fix x assume "x < length (cars ?w')"
    then show "owner_of ?w' x < length (people ?w')"
      using consistentD(2)[OF c] by (simp add: oo cars ps)
  next
    show "distinct (plates ?w')"
      using consistentD(3)[OF c] False by (simp add: plates_eq vs cars vehicle_at_def)
  next
    show "distinct (owners (register ?w'))" using consistentD(4)[OF c] by (simp add: os)
  next
    show "set (owners (register ?w')) = owner_of ?w' ` set (vehicles (register ?w'))"
      using consistentD(5)[OF c] by (auto simp: os oo vs)
  next
    fix p assume p: "p < length (people ?w')"
    then have p': "p < length (people w)" by (simp add: ps)
    have "vehicle_count (person_at ?w' p) =
        vehicle_count (person_at w p) + (if p = ?o then 1 else 0)"
      using p' by (simp add: person_at_def ps nth_list_update increment_vehicle_count_def)
    moreover have "int (length (owned_by ?w' p)) =
        int (length (owned_by w p)) + (if p = ?o then 1 else 0)"
      by (auto simp: owned_by_def oo vs)
    ultimately show "vehicle_count (person_at ?w' p) = int (length (owned_by ?w' p))"
      using consistentD(6)[OF c p'] by simp
  qed
qed

lemma delete_consistent:
  assumes u: "persons_unique w" and c: "consistent w"
  shows "consistent (snd (delete_vehicle plate w))"
proof (cases "find_vehicle_by_plate w plate")
  case None
  then have "snd (delete_vehicle plate w) = w" by (simp add: delete_vehicle_def)
  then show ?thesis using c by simp
next
  case (Some v)
  let ?w' = "snd (delete_vehicle plate w)"
  let ?p = "owner_of w v"
  let ?V = "vehicles (register w)"
  note e = delete_effect[OF u c Some]
  have cars: "cars ?w' = cars w" and vs: "vehicles (register ?w') = remove1 v ?V"
    and os: "owners (register ?w') =
      (if vehicle_count (person_at w ?p) = 1 then remove1 ?p (owners (register w))
       else owners (register w))"
    and ps: "people ?w' = (people w)[?p := decrement_vehicle_count (person_at w ?p)]"
    using e by simp_all
  have oo: "owner_of ?w' = owner_of w" using cars by (rule owner_of_cong)
  have vin: "v \<in> set ?V" using find_vehicle_Some[OF Some] by simp
  have dV: "distinct ?V" using c by (rule consistent_vehicles_distinct)
  have pl: "?p < length (people w)" using consistentD(1,2)[OF c] vin by blast
  have pos: "0 < vehicle_count (person_at w ?p)" using consistent_count_pos[OF c vin] .
  have cp: "vehicle_count (person_at w ?p) = int (length (filter (\<lambda>x. owner_of w x = ?p) ?V))"
    using consistentD(6)[OF c pl] by (simp add: owned_by_def)
  show ?thesis
  proof (rule consistentI)
    fix x assume "x \<in> set (vehicles (register ?w'))"
    then show "x < length (cars ?w')"
      using consistentD(1)[OF c] by (auto simp: vs cars dest: notin_set_remove1)
  next
    fix x assume "x < length (cars ?w')"
    then show "owner_of ?w' x < length (people ?w')"
      using consistentD(2)[OF c] by (simp add: oo cars ps)
  next
    have "inj_on (\<lambda>x. registration_plate (cars w ! x)) (set ?V)"
      using consistentD(3)[OF c] by (simp add: plates_eq distinct_map)
    then have "inj_on (\<lambda>x. registration_plate (cars w ! x)) (set (remove1 v ?V))"
      by (rule inj_on_subset) (rule set_remove1_subset)
    then show "distinct (plates ?w')" using dV by (simp add: plates_eq vs cars distinct_map)
  next
    show "distinct (owners (register ?w'))" using consistentD(4)[OF c] by (simp add: os)
  next
    show "set (owners (register ?w')) = owner_of ?w' ` set (vehicles (register ?w'))"
    proof (cases "vehicle_count (person_at w ?p) = 1")
      case True
      then have "length (filter (\<lambda>x. owner_of w x = ?p) ?V) = 1" using cp by simp
      from sole_vehicle_image[OF dV vin this] show ?thesis
        using True consistentD(4,5)[OF c] dV by (simp add: os oo vs)
    next
      case False
      then have "length (filter (\<lambda>x. owner_of w x = ?p) ?V) \<noteq> 1" using cp by simp
      from other_vehicle_image[OF dV vin this] show ?thesis
        using False consistentD(5)[OF c] dV by (simp add: os oo vs)
    qed
  next
    fix p assume p: "p < length (people ?w')"
    then have p': "p < length (people w)" by (simp add: ps)
    have "vehicle_count (person_at ?w' p) =
        vehicle_count (person_at w p) - (if ?p = p then 1 else 0)"
      using p' pos by (auto simp: person_at_def ps nth_list_update decrement_vehicle_count_def)
    moreover have "int (length (owned_by ?w' p)) =
        int (length (owned_by w p)) - (if ?p = p then 1 else 0)"
      using count_remove1[OF dV vin, of "owner_of w" p] by (simp add: owned_by_def oo vs)
    ultimately show "vehicle_count (person_at ?w' p) = int (length (owned_by ?w' p))"
      using consistentD(6)[OF c p'] by simp
  qed
qed

lemma update_consistent:
  assumes u: "persons_unique w" and c: "consistent w" and n: "n < length (people w)"
  shows "consistent (snd (update_vehicle_owner plate n w))"
proof (cases "find_vehicle_by_plate w plate")
  case None
  then have "snd (update_vehicle_owner plate n w) = w" by (simp add: update_vehicle_owner_def)
  then show ?thesis using c by simp
next
  case (Some v)
  show ?thesis
  proof (cases "owner_of w v = n")
    case True
    from update_same_owner[OF u c Some n True] show ?thesis using c by simp
  next
    case False
    let ?w' = "snd (update_vehicle_owner plate n w)"
    let ?old = "owner_of w v"
    let ?V = "vehicles (register w)"
    let ?O = "owners (register w)"
    let ?ps = "if vehicle_count (person_at w ?old) = 1 then remove1 ?old ?O else ?O"
    note e = update_effect[OF u c Some n False]
    have cars: "cars ?w' = (cars w)[v := (vehicle_at w v)\<lparr>owner := n\<rparr>]"
      and vs: "vehicles (register ?w') = ?V"
      and os: "owners (register ?w') = (if n \<in> set ?ps then ?ps else ?ps @ [n])"
      and ps: "people ?w' =
        (people w)[?old := decrement_vehicle_count (person_at w ?old),
                   n := increment_vehicle_count (person_at w n)]"
      using e by (simp_all add: Let_def)
    have vin: "v \<in> set ?V" using find_vehicle_Some[OF Some] by simp
    have vl: "v < length (cars w)" using consistentD(1)[OF c vin] .
    have dV: "distinct ?V" using c by (rule consistent_vehicles_distinct)
    have ol: "?old < length (people w)" using consistentD(2)[OF c vl] .
    have pos: "0 < vehicle_count (person_at w ?old)" using consistent_count_pos[OF c vin] .
    have cp: "vehicle_count (person_at w ?old) =
        int (length (filter (\<lambda>x. owner_of w x = ?old) ?V))"
      using consistentD(6)[OF c ol] by (simp add: owned_by_def)
    have oo: "owner_of ?w' = (owner_of w)(v := n)"
      using vl by (auto simp: owner_of_def vehicle_at_def cars fun_eq_iff)
    have pl: "plates ?w' = plates w"
      using vl by (auto simp: plates_eq vs cars vehicle_at_def nth_list_update)
    have sps: "set ?ps = owner_of w ` (set ?V - {v})"
    proof (cases "vehicle_count (person_at w ?old) = 1")
      case True
      then have "length (filter (\<lambda>x. owner_of w x = ?old) ?V) = 1" using cp by simp
      from sole_vehicle_image[OF dV vin this] show ?thesis
        using True consistentD(4,5)[OF c] by simp
    next
      case False
      then have "length (filter (\<lambda>x. owner_of w x = ?old) ?V) \<noteq> 1" using cp by simp
      from other_vehicle_image[OF dV vin this] show ?thesis
        using False consistentD(5)[OF c] by simp
    qed
    have dps: "distinct ?ps" using consistentD(4)[OF c] by simp
    show ?thesis
    proof (rule consistentI)
      fix x assume "x \<in> set (vehicles (register ?w'))"
      then show "x < length (cars ?w')" using consistentD(1)[OF c] by (simp add: vs cars)
    next
      fix x assume "x < length (cars ?w')"
      then show "owner_of ?w' x < length (people ?w')"
        using consistentD(2)[OF c] n by (simp add: oo cars ps)
    next
      show "distinct (plates ?w')" using consistentD(3)[OF c] by (simp add: pl)
    next
      show "distinct (owners (register ?w'))" using dps by (simp add: os)
    next
      have "owner_of ?w' ` set ?V = owner_of w ` (set ?V - {v}) \<union> {n}"
        unfolding oo using vin by (rule image_reassigned)
      then show "set (owners (register ?w')) = owner_of ?w' ` set (vehicles (register ?w'))"
        using sps by (auto simp: os vs)
    next
      fix p assume "p < length (people ?w')"
      then have p': "p < length (people w)" by (simp add: ps)
      have "vehicle_count (person_at ?w' p) =
          vehicle_count (person_at w p) - (if ?old = p then 1 else 0) + (if n = p then 1 else 0)"
        using p' pos False
        by (auto simp: person_at_def ps nth_list_update decrement_vehicle_count_def
            increment_vehicle_count_def)
      moreover have "int (length (owned_by ?w' p)) =
          int (length (owned_by w p)) - (if ?old = p then 1 else 0) + (if n = p then 1 else 0)"
        using count_reassigned[OF dV vin, of "owner_of w" n p] by (simp add: owned_by_def oo vs)
      ultimately show "vehicle_count (person_at ?w' p) = int (length (owned_by ?w' p))"
        using consistentD(6)[OF c p'] by simp
    qed
  qed
qed

section \<open>Every reachable world of a caller with unique persons\<close>

lemma keys_reassign: "keys (snd (reassign v n w)) = keys w"
  by (simp add: reassign_def Let_def)

lemma keys_insert: "keys (snd (insert_vehicle v w)) = keys w"
  by (simp add: insert_vehicle_def Let_def)

lemma keys_update: "keys (snd (update_vehicle_owner plate n w)) = keys w"
  by (simp add: update_vehicle_owner_def Let_def keys_reassign split: option.splits)

lemma keys_delete: "keys (snd (delete_vehicle plate w)) = keys w"
  by (simp add: delete_vehicle_def Let_def split: option.splits)

lemma keys_perform: "\<exists>ext. keys (snd (perform c w)) = keys w @ ext"
  by (cases c) (simp_all add: keys_def split_beta keys_insert[unfolded keys_def]
      keys_update[unfolded keys_def] keys_delete[unfolded keys_def])

lemma keys_run: "run cs w = Some (rs, w') \<Longrightarrow> \<exists>ext. keys w' = keys w @ ext"
proof (induction cs arbitrary: w rs)
  case Nil
  then show ?case by simp
next
  case (Cons c cs)
  from run_Cons_Some[OF Cons.prems] obtain rs'
    where "run cs (snd (perform c w)) = Some (rs', w')" by blast
  from Cons.IH[OF this] obtain e1 where "keys w' = keys (snd (perform c w)) @ e1" ..
  moreover obtain e2 where "keys (snd (perform c w)) = keys w @ e2"
    using keys_perform[of c w] ..
  ultimately show ?case by simp
qed

lemma persons_unique_before:
  "keys w' = keys w @ ext \<Longrightarrow> persons_unique w' \<Longrightarrow> persons_unique w"
  by (simp add: persons_unique_def)

lemma new_person_consistent:
  assumes c: "consistent w" and z: "vehicle_count x = 0"
  shows "consistent (w\<lparr>people := people w @ [x]\<rparr>)"
proof -
  let ?w' = "w\<lparr>people := people w @ [x]\<rparr>"
  have oo: "owner_of ?w' = owner_of w" by (rule owner_of_cong) simp
  have ob: "\<And>p. owned_by ?w' p = owned_by w p" by (simp add: owned_by_def oo)
  show ?thesis
  proof (rule consistentI)
    fix v assume "v \<in> set (vehicles (register ?w'))"
    then show "v < length (cars ?w')" using consistentD(1)[OF c] by simp
  next
    fix v assume "v < length (cars ?w')"
    then have "owner_of w v < length (people w)" using consistentD(2)[OF c] by simp
    then show "owner_of ?w' v < length (people ?w')" by (simp add: oo)
  next
    show "distinct (plates ?w')" using consistentD(3)[OF c] by (simp add: plates_eq)
  next
    show "distinct (owners (register ?w'))" using consistentD(4)[OF c] by simp
  next
    show "set (owners (register ?w')) = owner_of ?w' ` set (vehicles (register ?w'))"
      using consistentD(5)[OF c] by (simp add: oo)
  next
    fix p assume p: "p < length (people ?w')"
    show "vehicle_count (person_at ?w' p) = int (length (owned_by ?w' p))"
    proof (cases "p < length (people w)")
      case True
      then show ?thesis using consistentD(6)[OF c True] by (simp add: ob person_at_def nth_append)
    next
      case False
      with p have pe: "p = length (people w)" by simp
      have "\<And>v. v \<in> set (vehicles (register w)) \<Longrightarrow> owner_of w v \<noteq> p"
        using consistentD(1,2)[OF c] pe by fastforce
      then have "owned_by w p = []" by (simp add: owned_by_def filter_empty_conv)
      moreover have "vehicle_count (person_at ?w' p) = vehicle_count x"
        using pe by (simp add: person_at_def)
      ultimately show ?thesis using z by (simp add: ob)
    qed
  qed
qed

lemma new_vehicle_consistent:
  assumes c: "consistent w" and p: "p < length (people w)"
  shows "consistent (w\<lparr>cars := cars w @ [Vehicle_init plate date p]\<rparr>)"
proof -
  let ?w' = "w\<lparr>cars := cars w @ [Vehicle_init plate date p]\<rparr>"
  have old: "\<And>v. v < length (cars w) \<Longrightarrow> cars ?w' ! v = cars w ! v"
    by (simp add: nth_append)
  have reg: "\<And>v. v \<in> set (vehicles (register w)) \<Longrightarrow> cars ?w' ! v = cars w ! v"
    using old consistentD(1)[OF c] by blast
  have oo: "\<And>v. v \<in> set (vehicles (register w)) \<Longrightarrow> owner_of ?w' v = owner_of w v"
    using reg by (simp add: owner_of_def vehicle_at_def)
  have ob: "\<And>q. owned_by ?w' q = owned_by w q"
    using oo by (auto simp: owned_by_def intro: filter_cong)
  show ?thesis
  proof (rule consistentI)
    fix v assume "v \<in> set (vehicles (register ?w'))"
    then show "v < length (cars ?w')" using consistentD(1)[OF c, of v] by simp
  next
    fix v assume v: "v < length (cars ?w')"
    show "owner_of ?w' v < length (people ?w')"
    proof (cases "v < length (cars w)")
      case True
      then show ?thesis using consistentD(2)[OF c True] old[OF True]
        by (simp add: owner_of_def vehicle_at_def)
    next
      case False
      with v have "v = length (cars w)" by simp
      then show ?thesis using p by (simp add: owner_of_def vehicle_at_def Vehicle_init_def)
    qed
  next
    have "plates ?w' = plates w" using reg by (simp add: plates_eq)
    then show "distinct (plates ?w')" using consistentD(3)[OF c] by simp
  next
    show "distinct (owners (register ?w'))" using consistentD(4)[OF c] by simp
  next
    have "owner_of ?w' ` set (vehicles (register w)) = owner_of w ` set (vehicles (register w))"
      using oo by (rule image_cong[OF refl])
    then show "set (owners (register ?w')) = owner_of ?w' ` set (vehicles (register ?w'))"
      using consistentD(5)[OF c] by simp
  next
    fix q assume "q < length (people ?w')"
    then show "vehicle_count (person_at ?w' q) = int (length (owned_by ?w' q))"
      using consistentD(6)[OF c, of q] by (simp add: ob person_at_def)
  qed
qed

lemma perform_consistent:
  assumes u: "persons_unique w" and c: "consistent w" and ok: "possible c w"
  shows "consistent (snd (perform c w))"
proof (cases c)
  case (NewPerson n s a)
  then show ?thesis using new_person_consistent[OF c, of "Person_init n s a"]
    by (simp add: Person_init_def)
next
  case (NewVehicle plate date p)
  then show ?thesis using new_vehicle_consistent[OF c, of p plate date] ok by simp
next
  case (InsertVehicle v)
  then show ?thesis using insert_consistent[OF u c, of v] ok by (simp add: split_beta)
next
  case (UpdateVehicleOwner plate p)
  then show ?thesis using update_consistent[OF u c, of p plate] ok by (simp add: split_beta)
next
  case (DeleteVehicle plate)
  then show ?thesis using delete_consistent[OF u c, of plate] by (simp add: split_beta)
qed

lemma consistent_empty: "consistent empty_world"
  by (simp add: consistent_def vehicles_allocated_def unique_plates_def plates_def
      empty_world_def Register_init_def)

lemma run_consistent:
  "run cs w = Some (rs, w') \<Longrightarrow> persons_unique w' \<Longrightarrow> consistent w \<Longrightarrow> consistent w'"
proof (induction cs arbitrary: w rs)
  case Nil
  then show ?case by simp
next
  case (Cons c cs)
  let ?w1 = "snd (perform c w)"
  from run_Cons_Some[OF Cons.prems(1)] obtain rs'
    where ok: "possible c w" and rest: "run cs ?w1 = Some (rs', w')" by blast
  from keys_run[OF rest] obtain e1 where "keys w' = keys ?w1 @ e1" ..
  then have u1: "persons_unique ?w1" using Cons.prems(2) by (rule persons_unique_before)
  obtain e2 where "keys ?w1 = keys w @ e2" using keys_perform[of c w] ..
  then have u0: "persons_unique w" using u1 by (rule persons_unique_before)
  have "consistent ?w1" using u0 Cons.prems(3) ok by (rule perform_consistent)
  with Cons.IH[OF rest Cons.prems(2)] show ?case .
qed

subsection \<open>No call raises\<close>

lemma insert_returns:
  assumes "persons_unique w" "consistent w" "v < length (cars w)"
  shows "fst (insert_vehicle v w) = Returns 0 \<or> fst (insert_vehicle v w) = Returns 1"
proof (cases "registration_plate (vehicle_at w v) \<in> set (plates w)")
  case True
  then show ?thesis by (simp add: insert_returns_0)
next
  case False
  from insert_effect[OF assms False] show ?thesis by simp
qed

lemma update_returns:
  assumes "persons_unique w" "consistent w" "n < length (people w)"
  shows "fst (update_vehicle_owner plate n w) = Returns 0 \<or>
         fst (update_vehicle_owner plate n w) = Returns 1"
proof (cases "find_vehicle_by_plate w plate")
  case None
  then show ?thesis by (simp add: update_vehicle_owner_def)
next
  case (Some v)
  show ?thesis
  proof (cases "owner_of w v = n")
    case True
    from update_same_owner[OF assms(1,2) Some assms(3) True] show ?thesis by simp
  next
    case False
    from update_effect[OF assms(1,2) Some assms(3) False] show ?thesis by simp
  qed
qed

lemma delete_returns:
  assumes "persons_unique w" "consistent w"
  shows "fst (delete_vehicle plate w) = Returns 0 \<or> fst (delete_vehicle plate w) = Returns 1"
proof (cases "find_vehicle_by_plate w plate")
  case None
  then show ?thesis by (simp add: delete_vehicle_def)
next
  case (Some v)
  from delete_effect[OF assms Some] show ?thesis by simp
qed

lemma perform_returns:
  assumes "persons_unique w" "consistent w" "possible c w"
  shows "list_all (\<lambda>r. r = Returns 0 \<or> r = Returns 1)
           (case fst (perform c w) of None \<Rightarrow> [] | Some x \<Rightarrow> [x])"
proof (cases c)
  case (InsertVehicle v)
  then show ?thesis using insert_returns[OF assms(1,2), of v] assms(3) by (simp add: split_beta)
next
  case (UpdateVehicleOwner plate p)
  then show ?thesis using update_returns[OF assms(1,2), of p plate] assms(3)
    by (simp add: split_beta)
next
  case (DeleteVehicle plate)
  then show ?thesis using delete_returns[OF assms(1,2), of plate] by (simp add: split_beta)
qed simp_all

lemma run_Cons_results:
  assumes "run (c # cs) w = Some (rs, w')"
  shows "\<exists>rs'. run cs (snd (perform c w)) = Some (rs', w') \<and>
           rs = (case fst (perform c w) of None \<Rightarrow> [] | Some x \<Rightarrow> [x]) @ rs'"
  using assms by (auto split: if_splits prod.splits)

lemma run_returns:
  "run cs w = Some (rs, w') \<Longrightarrow> persons_unique w' \<Longrightarrow> consistent w \<Longrightarrow>
   list_all (\<lambda>r. r = Returns 0 \<or> r = Returns 1) rs"
proof (induction cs arbitrary: w rs)
  case Nil
  then show ?case by simp
next
  case (Cons c cs)
  let ?w1 = "snd (perform c w)"
  from run_Cons_Some[OF Cons.prems(1)] have ok: "possible c w" by blast
  from run_Cons_results[OF Cons.prems(1)] obtain rs'
    where rest: "run cs ?w1 = Some (rs', w')"
      and rs: "rs = (case fst (perform c w) of None \<Rightarrow> [] | Some x \<Rightarrow> [x]) @ rs'"
    by blast
  from keys_run[OF rest] obtain e1 where "keys w' = keys ?w1 @ e1" ..
  then have u1: "persons_unique ?w1" using Cons.prems(2) by (rule persons_unique_before)
  obtain e2 where "keys ?w1 = keys w @ e2" using keys_perform[of c w] ..
  then have u0: "persons_unique w" using u1 by (rule persons_unique_before)
  have "consistent ?w1" using u0 Cons.prems(3) ok by (rule perform_consistent)
  from Cons.IH[OF rest Cons.prems(2) this] perform_returns[OF u0 Cons.prems(3) ok]
  show ?case by (simp add: rs)
qed

subsection \<open>The specification's invariants follow\<close>

lemma pairwise_unequal_keys: "pairwise_unequal ps \<longleftrightarrow> distinct (map identity_key ps)"
  by (induction ps) (auto simp: list_ex_iff Person_eq_def identity_key_def)

lemma by_owner_is_owned_by:
  assumes u: "persons_unique w" and c: "consistent w" and p: "p < length (people w)"
  shows "list_vehicle_by_owner p w = owned_by w p"
proof -
  have "\<And>v. v \<in> set (vehicles (register w)) \<Longrightarrow>
          same_person w p (owner (vehicle_at w v)) \<longleftrightarrow> owner_of w v = p"
    using same_person_unique[OF u p] consistentD(1,2)[OF c] by (simp add: owner_of_def)
  then show ?thesis by (auto simp: list_vehicle_by_owner_def owned_by_def intro: filter_cong)
qed

lemma consistent_counts_agree:
  assumes u: "persons_unique w" and c: "consistent w"
  shows "counts_agree w"
  using by_owner_is_owned_by[OF u c] consistentD(6)[OF c] consistent_owner_allocated[OF c]
  by (simp add: counts_agree_def list_all_iff)

lemma consistent_owners_exact:
  assumes u: "persons_unique w" and c: "consistent w"
  shows "owners_exact w"
proof -
  let ?O = "owners (register w)"
  have al: "\<And>q. q \<in> set ?O \<Longrightarrow> q < length (people w)"
    using consistent_owner_allocated[OF c] .
  have eq: "map identity_key (map (person_at w) ?O) = map (nth (keys w)) ?O"
    using al by (simp add: keys_def person_at_def)
  have "inj_on (nth (keys w)) (set ?O)"
    using u al by (auto simp: inj_on_def persons_unique_def nth_eq_iff_index_eq)
  then have dm: "distinct (map (nth (keys w)) ?O)"
    using consistentD(4)[OF c] by (simp add: distinct_map)
  have "no_duplicate_owners w"
    unfolding no_duplicate_owners_def pairwise_unequal_keys eq by (rule dm)
  moreover have "no_extra_owners w"
    using consistentD(5)[OF c]
    by (auto simp: no_extra_owners_def list_all_iff list_ex_iff same_person_def Person_eq_def
        owner_of_def)
  moreover have "no_omitted_owners w"
    using consistentD(5)[OF c]
    by (auto simp: no_omitted_owners_def list_all_iff list_ex_iff same_person_def Person_eq_def
        owner_of_def)
  ultimately show ?thesis by (simp add: owners_exact_def)
qed

lemma unlisted_person_owns_nothing:
  assumes u: "persons_unique w" and c: "consistent w" and p: "p < length (people w)"
    and n: "\<not> list_contains (same_person w p) (list_owners w)"
  shows "list_vehicle_by_owner p w = []"
proof -
  have "p \<notin> set (owners (register w))"
    using n contains_person_iff[OF u p, of "owners (register w)"] consistent_owner_allocated[OF c]
    by (simp add: list_owners_def)
  then have "\<And>v. v \<in> set (vehicles (register w)) \<Longrightarrow> owner_of w v \<noteq> p"
    using consistentD(5)[OF c] by blast
  then have "owned_by w p = []" by (simp add: owned_by_def filter_empty_conv)
  then show ?thesis using by_owner_is_owned_by[OF u c p] by simp
qed

section \<open>Results for callers with unique persons\<close>

text \<open>
  X1. When the caller never builds two equal \<open>Person\<close> objects, every world reached from
  the empty register by constructing objects and calling \<open>insert_vehicle\<close>,
  \<open>update_vehicle_owner\<close> and \<open>delete_vehicle\<close> satisfies the three invariants of the
  specification: plates are unique, \<open>owners\<close> holds exactly the owners of the registered
  vehicles, and the counter of every listed owner is the number of its vehicles.
\<close>

theorem unique_persons_keep_invariants:
  assumes "run cs empty_world = Some (rs, w)" and "persons_unique w"
  shows "unique_plates w \<and> owners_exact w \<and> counts_agree w"
proof -
  have c: "consistent w" using assms consistent_empty by (rule run_consistent)
  then have "unique_plates w" by (simp add: consistent_def)
  then show ?thesis
    using consistent_owners_exact[OF assms(2) c] consistent_counts_agree[OF assms(2) c] by simp
qed

theorem unique_persons_keep_invariants_witness:
  "run (module_objects @ module_inserts @ module_updates) empty_world =
     Some ([Returns 1, Returns 1, Returns 0, Returns 1, Returns 0, Returns 0, Returns 1, Returns 1],
           after_module_updates) \<and>
   persons_unique after_module_updates \<and>
   unique_plates after_module_updates \<and> owners_exact after_module_updates \<and>
   counts_agree after_module_updates"
proof -
  have r: "run (module_objects @ module_inserts @ module_updates) empty_world =
     Some ([Returns 1, Returns 1, Returns 0, Returns 1, Returns 0, Returns 0, Returns 1, Returns 1],
           after_module_updates)"
    by code_simp
  have u: "persons_unique after_module_updates" by code_simp
  from unique_persons_keep_invariants[OF r u] r u show ?thesis by simp
qed

text \<open>
  X2. For such a caller no call raises: every result of the run is 0 or 1, and so is the
  result of any further call with allocated arguments; in particular \<open>owners.remove\<close>
  always finds its element.
\<close>

theorem unique_persons_never_raise:
  assumes "run cs empty_world = Some (rs, w)" and "persons_unique w"
  shows "list_all (\<lambda>r. r = Returns 0 \<or> r = Returns 1) rs \<and>
    (v < length (cars w) \<longrightarrow>
       fst (insert_vehicle v w) = Returns 0 \<or> fst (insert_vehicle v w) = Returns 1) \<and>
    (n < length (people w) \<longrightarrow>
       fst (update_vehicle_owner plate n w) = Returns 0 \<or>
       fst (update_vehicle_owner plate n w) = Returns 1) \<and>
    (fst (delete_vehicle plate' w) = Returns 0 \<or> fst (delete_vehicle plate' w) = Returns 1)"
proof -
  have c: "consistent w" using assms consistent_empty by (rule run_consistent)
  have "list_all (\<lambda>r. r = Returns 0 \<or> r = Returns 1) rs"
    using assms consistent_empty by (rule run_returns)
  then show ?thesis
    using insert_returns[OF assms(2) c, of v] update_returns[OF assms(2) c, of n plate]
      delete_returns[OF assms(2) c, of plate']
    by blast
qed

theorem unique_persons_never_raise_witness:
  "run (module_objects @ module_inserts @ module_updates @ module_deletes) empty_world =
     Some ([Returns 1, Returns 1, Returns 0, Returns 1, Returns 0, Returns 0, Returns 1, Returns 1,
            Returns 0, Returns 1, Returns 1, Returns 1], after_module_test) \<and>
   persons_unique after_module_test \<and>
   fst (insert_vehicle 0 after_module_test) = Returns 1 \<and>
   fst (update_vehicle_owner ''abc0'' 0 after_module_test) = Returns 0 \<and>
   fst (delete_vehicle ''abc0'' after_module_test) = Returns 0"
proof -
  have r: "run (module_objects @ module_inserts @ module_updates @ module_deletes) empty_world =
     Some ([Returns 1, Returns 1, Returns 0, Returns 1, Returns 0, Returns 0, Returns 1, Returns 1,
            Returns 0, Returns 1, Returns 1, Returns 1], after_module_test)"
    by code_simp
  have u: "persons_unique after_module_test" by code_simp
  have a: "(0::nat) < length (cars after_module_test)" "(0::nat) < length (people after_module_test)"
    by (simp_all add: after_module_test_def)
  have n: "fst (insert_vehicle 0 after_module_test) \<noteq> Returns 0"
    "fst (update_vehicle_owner ''abc0'' 0 after_module_test) \<noteq> Returns 1"
    "fst (delete_vehicle ''abc0'' after_module_test) \<noteq> Returns 1"
    by code_simp+
  from unique_persons_never_raise[OF r u, of 0 0 "''abc0''" "''abc0''"] a n r u
  show ?thesis by simp
qed

text \<open>
  X3. For such a caller a person equal to none of \<open>list_owners()\<close> owns no registered
  vehicle: \<open>list_vehicle_by_owner\<close> returns the empty list.
\<close>

theorem unlisted_person_has_no_vehicles:
  assumes "run cs empty_world = Some (rs, w)" and "persons_unique w"
    and "p < length (people w)"
    and "\<not> list_contains (same_person w p) (list_owners w)"
  shows "list_vehicle_by_owner p w = []"
proof -
  have "consistent w" using assms(1,2) consistent_empty by (rule run_consistent)
  with assms(2) show ?thesis using assms(3,4) by (rule unlisted_person_owns_nothing)
qed

theorem unlisted_person_has_no_vehicles_witness:
  "run (module_objects @ module_inserts @ module_updates) empty_world =
     Some ([Returns 1, Returns 1, Returns 0, Returns 1, Returns 0, Returns 0, Returns 1, Returns 1],
           after_module_updates) \<and>
   list_owners after_module_updates = [1] \<and>
   list_vehicle_by_owner 0 after_module_updates = []"
proof -
  have r: "run (module_objects @ module_inserts @ module_updates) empty_world =
     Some ([Returns 1, Returns 1, Returns 0, Returns 1, Returns 0, Returns 0, Returns 1, Returns 1],
           after_module_updates)"
    by code_simp
  have u: "persons_unique after_module_updates" by code_simp
  have p: "(0::nat) < length (people after_module_updates)"
    by (simp add: after_module_updates_def)
  have n: "\<not> list_contains (same_person after_module_updates 0) (list_owners after_module_updates)"
    by code_simp
  have "list_owners after_module_updates = [1]" by code_simp
  with unlisted_person_has_no_vehicles[OF r u p n] r show ?thesis by simp
qed

text \<open>
  X4. For such a caller \<open>delete_vehicle\<close> returns 1 if and only if a vehicle with the
  plate is registered, and 0 otherwise; when it returns 1 that vehicle is taken out of
  \<open>vehicles\<close>, the counter of its owner is lowered by 1, and the owner is taken out of
  \<open>owners\<close> exactly when the counter reaches 0.
\<close>

theorem delete_vehicle_with_unique_persons:
  assumes "run cs empty_world = Some (rs, w)" and "persons_unique w"
  shows "(fst (delete_vehicle plate w) = Returns 1 \<longleftrightarrow> plate \<in> set (plates w)) \<and>
    (fst (delete_vehicle plate w) = Returns 0 \<longleftrightarrow> plate \<notin> set (plates w)) \<and>
    (\<forall>v. find_vehicle_by_plate w plate = Some v \<longrightarrow>
       list_vehicles (snd (delete_vehicle plate w)) = remove1 v (list_vehicles w) \<and>
       vehicle_count (person_at (snd (delete_vehicle plate w)) (owner_of w v)) =
         vehicle_count (person_at w (owner_of w v)) - 1 \<and>
       list_owners (snd (delete_vehicle plate w)) =
         (if vehicle_count (person_at (snd (delete_vehicle plate w)) (owner_of w v)) = 0
          then remove1 (owner_of w v) (list_owners w) else list_owners w))"
proof -
  let ?w' = "snd (delete_vehicle plate w)"
  have c: "consistent w" using assms consistent_empty by (rule run_consistent)
  have r0: "fst (delete_vehicle plate w) = Returns 0 \<longleftrightarrow> plate \<notin> set (plates w)"
    by (rule delete_returns_0)
  have r1: "fst (delete_vehicle plate w) = Returns 1 \<longleftrightarrow> plate \<in> set (plates w)"
    using delete_returns[OF assms(2) c, of plate] r0 by auto
  have eff: "list_vehicles ?w' = remove1 v (list_vehicles w) \<and>
       vehicle_count (person_at ?w' (owner_of w v)) =
         vehicle_count (person_at w (owner_of w v)) - 1 \<and>
       list_owners ?w' =
         (if vehicle_count (person_at ?w' (owner_of w v)) = 0
          then remove1 (owner_of w v) (list_owners w) else list_owners w)"
    if f: "find_vehicle_by_plate w plate = Some v" for v
  proof -
    have vin: "v \<in> set (vehicles (register w))" using find_vehicle_Some[OF f] by simp
    have ol: "owner_of w v < length (people w)" using consistentD(1,2)[OF c] vin by blast
    have pos: "0 < vehicle_count (person_at w (owner_of w v))"
      using consistent_count_pos[OF c vin] .
    note e = delete_effect[OF assms(2) c f]
    have "person_at ?w' (owner_of w v) = decrement_vehicle_count (person_at w (owner_of w v))"
      using e ol by (simp add: person_at_def)
    then have cnt: "vehicle_count (person_at ?w' (owner_of w v)) =
        vehicle_count (person_at w (owner_of w v)) - 1"
      using pos by (simp add: decrement_positive)
    have "vehicle_count (person_at w (owner_of w v)) - 1 = 0 \<longleftrightarrow>
        vehicle_count (person_at w (owner_of w v)) = 1" by auto
    then show ?thesis using e cnt by (simp add: list_vehicles_def list_owners_def)
  qed
  show ?thesis using r0 r1 eff by blast
qed

theorem delete_vehicle_with_unique_persons_witness:
  "run (module_objects @ module_inserts) empty_world =
     Some ([Returns 1, Returns 1, Returns 0, Returns 1], after_module_inserts) \<and>
   fst (delete_vehicle ''xyz'' after_module_inserts) = Returns 1 \<and>
   list_vehicles (snd (delete_vehicle ''xyz'' after_module_inserts)) = [0, 1] \<and>
   vehicle_count (person_at (snd (delete_vehicle ''xyz'' after_module_inserts)) 1) = 0 \<and>
   list_owners (snd (delete_vehicle ''xyz'' after_module_inserts)) = [0]"
proof -
  have r: "run (module_objects @ module_inserts) empty_world =
     Some ([Returns 1, Returns 1, Returns 0, Returns 1], after_module_inserts)"
    by code_simp
  have u: "persons_unique after_module_inserts" by code_simp
  have f: "find_vehicle_by_plate after_module_inserts ''xyz'' = Some 3" by code_simp
  have p: "''xyz'' \<in> set (plates after_module_inserts)" by code_simp
  have o: "owner_of after_module_inserts 3 = 1" "list_vehicles after_module_inserts = [0, 1, 3]"
    "list_owners after_module_inserts = [0, 1]"
    "vehicle_count (person_at after_module_inserts 1) = 1"
    by code_simp+
  from delete_vehicle_with_unique_persons[OF r u, of "''xyz''"] f p
  have "fst (delete_vehicle ''xyz'' after_module_inserts) = Returns 1"
    and "list_vehicles (snd (delete_vehicle ''xyz'' after_module_inserts)) =
           remove1 3 (list_vehicles after_module_inserts)"
    and "vehicle_count (person_at (snd (delete_vehicle ''xyz'' after_module_inserts))
           (owner_of after_module_inserts 3)) =
         vehicle_count (person_at after_module_inserts (owner_of after_module_inserts 3)) - 1"
    and "list_owners (snd (delete_vehicle ''xyz'' after_module_inserts)) =
         (if vehicle_count (person_at (snd (delete_vehicle ''xyz'' after_module_inserts))
               (owner_of after_module_inserts 3)) = 0
          then remove1 (owner_of after_module_inserts 3) (list_owners after_module_inserts)
          else list_owners after_module_inserts)"
    by blast+
  then show ?thesis using r o by simp
qed

text \<open>
  X5. For such a caller, when a vehicle with the plate is registered and its owner is not
  equal to \<open>new_owner\<close>, \<open>update_vehicle_owner\<close> returns 1; afterwards the counter of
  the old owner is one less, the old owner is taken out of \<open>owners\<close> exactly when its
  counter reached 0, the vehicle's owner is \<open>new_owner\<close>, \<open>new_owner\<close> is appended to
  \<open>owners\<close> exactly when no equal person was in \<open>owners\<close>, the counter of
  \<open>new_owner\<close> is one more, and no other vehicle is changed.
\<close>

theorem update_vehicle_owner_with_unique_persons:
  assumes "run cs empty_world = Some (rs, w)" and "persons_unique w"
    and "n < length (people w)"
    and "find_vehicle_by_plate w plate = Some v"
    and "\<not> Person_eq (person_at w (owner_of w v)) (person_at w n)"
  shows "fst (update_vehicle_owner plate n w) = Returns 1 \<and>
    vehicle_count (person_at (snd (update_vehicle_owner plate n w)) (owner_of w v)) =
      vehicle_count (person_at w (owner_of w v)) - 1 \<and>
    owner_of (snd (update_vehicle_owner plate n w)) v = n \<and>
    vehicle_count (person_at (snd (update_vehicle_owner plate n w)) n) =
      vehicle_count (person_at w n) + 1 \<and>
    list_owners (snd (update_vehicle_owner plate n w)) =
      (if vehicle_count (person_at (snd (update_vehicle_owner plate n w)) (owner_of w v)) = 0
       then remove1 (owner_of w v) (list_owners w) else list_owners w) @
      (if list_contains (same_person w n) (list_owners w) then [] else [n]) \<and>
    list_vehicles (snd (update_vehicle_owner plate n w)) = list_vehicles w \<and>
    (\<forall>x. x \<noteq> v \<longrightarrow> vehicle_at (snd (update_vehicle_owner plate n w)) x = vehicle_at w x)"
proof -
  let ?w' = "snd (update_vehicle_owner plate n w)"
  let ?old = "owner_of w v"
  let ?O = "owners (register w)"
  have c: "consistent w" using assms(1,2) consistent_empty by (rule run_consistent)
  have vin: "v \<in> set (vehicles (register w))" using find_vehicle_Some[OF assms(4)] by simp
  have vl: "v < length (cars w)" using consistentD(1)[OF c vin] .
  have ol: "?old < length (people w)" using consistentD(2)[OF c vl] .
  have diff: "?old \<noteq> n" using assms(5) by (auto simp: Person_eq_def)
  have pos: "0 < vehicle_count (person_at w ?old)" using consistent_count_pos[OF c vin] .
  note e = update_effect[OF assms(2) c assms(4) assms(3) diff]
  have ps: "people ?w' =
      (people w)[?old := decrement_vehicle_count (person_at w ?old),
                 n := increment_vehicle_count (person_at w n)]"
    using e by simp
  have co: "vehicle_count (person_at ?w' ?old) = vehicle_count (person_at w ?old) - 1"
    using ol diff pos by (simp add: person_at_def ps decrement_vehicle_count_def)
  have cn: "vehicle_count (person_at ?w' n) = vehicle_count (person_at w n) + 1"
    using assms(3) diff by (simp add: person_at_def ps increment_vehicle_count_def)
  have ow: "owner_of ?w' v = n" using e vl by (simp add: owner_of_def vehicle_at_def)
  have ot: "\<forall>x. x \<noteq> v \<longrightarrow> vehicle_at ?w' x = vehicle_at w x"
    using e by (simp add: vehicle_at_def)
  have mem: "list_contains (same_person w n) ?O \<longleftrightarrow> n \<in> set ?O"
    using contains_person_iff[OF assms(2,3), of ?O] consistent_owner_allocated[OF c] by blast
  have one: "vehicle_count (person_at w ?old) - 1 = 0 \<longleftrightarrow> vehicle_count (person_at w ?old) = 1"
    by auto
  have rm: "n \<in> set (remove1 ?old ?O) \<longleftrightarrow> n \<in> set ?O"
    using diff consistentD(4)[OF c] by simp
  have os: "list_owners ?w' =
      (if vehicle_count (person_at ?w' ?old) = 0 then remove1 ?old ?O else ?O) @
      (if list_contains (same_person w n) ?O then [] else [n])"
    using e by (simp add: list_owners_def Let_def co one mem rm)
  show ?thesis using e co cn ow ot os by (simp add: list_vehicles_def list_owners_def)
qed

theorem update_vehicle_owner_with_unique_persons_witness:
  "run (module_objects @ module_inserts) empty_world =
     Some ([Returns 1, Returns 1, Returns 0, Returns 1], after_module_inserts) \<and>
   fst (update_vehicle_owner ''abc1'' 1 after_module_inserts) = Returns 1 \<and>
   vehicle_count (person_at (snd (update_vehicle_owner ''abc1'' 1 after_module_inserts)) 0) = 1 \<and>
   owner_of (snd (update_vehicle_owner ''abc1'' 1 after_module_inserts)) 1 = 1 \<and>
   vehicle_count (person_at (snd (update_vehicle_owner ''abc1'' 1 after_module_inserts)) 1) = 2 \<and>
   list_owners (snd (update_vehicle_owner ''abc1'' 1 after_module_inserts)) = [0, 1]"
proof -
  have r: "run (module_objects @ module_inserts) empty_world =
     Some ([Returns 1, Returns 1, Returns 0, Returns 1], after_module_inserts)"
    by code_simp
  have u: "persons_unique after_module_inserts" by code_simp
  have n: "(1::nat) < length (people after_module_inserts)"
    by (simp add: after_module_inserts_def)
  have f: "find_vehicle_by_plate after_module_inserts ''abc1'' = Some 1" by code_simp
  have d: "\<not> Person_eq (person_at after_module_inserts (owner_of after_module_inserts 1))
             (person_at after_module_inserts 1)"
    by code_simp
  have o: "owner_of after_module_inserts 1 = 0" "list_owners after_module_inserts = [0, 1]"
    "vehicle_count (person_at after_module_inserts 0) = 2"
    "vehicle_count (person_at after_module_inserts 1) = 1"
    "list_contains (same_person after_module_inserts 1) [0, 1]"
    by code_simp+
  from update_vehicle_owner_with_unique_persons[OF r u n f d] r o show ?thesis by simp
qed

end
